theory Spec2Isabelle
  imports Complex_Main "HOL-Library.AList"
begin

section \<open>Strings as the code uses them\<close>

text \<open>
  Source strings are modelled as \<^typ>\<open>string\<close>. Case conversion is the ASCII one
  (\<open>A-Z\<close> against \<open>a-z\<close>), which is what \<open>toLowerCase\<close> and \<open>toUpperCase\<close> do on the
  identifiers, file names and keyword tables the analysis works with.
\<close>

definition upperLetters :: string where
  "upperLetters = ''ABCDEFGHIJKLMNOPQRSTUVWXYZ''"

definition lowerLetters :: string where
  "lowerLetters = ''abcdefghijklmnopqrstuvwxyz''"

definition isUpper :: "char \<Rightarrow> bool" where
  "isUpper c = (c \<in> set upperLetters)"

definition isLower :: "char \<Rightarrow> bool" where
  "isLower c = (c \<in> set lowerLetters)"

definition toLowerChar :: "char \<Rightarrow> char" where
  "toLowerChar c = (case map_of (zip upperLetters lowerLetters) c of Some l \<Rightarrow> l | None \<Rightarrow> c)"

definition toUpperChar :: "char \<Rightarrow> char" where
  "toUpperChar c = (case map_of (zip lowerLetters upperLetters) c of Some u \<Rightarrow> u | None \<Rightarrow> c)"

definition toLowerCase :: "string \<Rightarrow> string" where
  "toLowerCase s = map toLowerChar s"

definition toUpperCase :: "string \<Rightarrow> string" where
  "toUpperCase s = map toUpperChar s"

fun startsWith :: "string \<Rightarrow> string \<Rightarrow> bool" where
  "startsWith s [] = True"
| "startsWith [] (p # ps) = False"
| "startsWith (c # cs) (p # ps) = (c = p \<and> startsWith cs ps)"

text \<open>\<open>s.includes(sub)\<close>: \<open>sub\<close> occurs in \<open>s\<close> as a contiguous substring.\<close>

fun str_includes :: "string \<Rightarrow> string \<Rightarrow> bool" where
  "str_includes [] sub = (sub = [])"
| "str_includes (c # cs) sub = (startsWith (c # cs) sub \<or> str_includes cs sub)"

text \<open>\<open>xs.some(p)\<close> is \<^const>\<open>list_ex\<close>, \<open>xs.filter(p)\<close> is \<^const>\<open>filter\<close>.\<close>

definition includesAny :: "string \<Rightarrow> string list \<Rightarrow> bool" where
  "includesAny s keywords = list_ex (\<lambda>k. str_includes s k) keywords"

section \<open>Data model (models/interfaces)\<close>

datatype ComponentCategory = FORM | NAVIGATION | DISPLAY | INTERACTION | LAYOUT

text \<open>The string each enum member stands for.\<close>

fun categoryValue :: "ComponentCategory \<Rightarrow> string" where
  "categoryValue FORM = ''form''"
| "categoryValue NAVIGATION = ''navigation''"
| "categoryValue DISPLAY = ''display''"
| "categoryValue INTERACTION = ''interaction''"
| "categoryValue LAYOUT = ''layout''"

text \<open>
  \<open>PropDefinition\<close>; the optional \<open>description\<close> and \<open>defaultValue\<close> are never set by the
  analysis and are left out.
\<close>

record PropDefinition =
  prop_name :: string
  prop_type :: string
  required :: bool

datatype ActionType = click | input | navigation | submit

record UserAction =
  action_type :: ActionType
  trigger :: string
  action_description :: string
  outcome :: string

datatype ComponentMetadata =
  ComponentMetadata
    (name: string)
    (filePath: string)
    (props: "PropDefinition list")
    (children: "ComponentMetadata list")
    (userActions: "UserAction list")
    (semanticCategory: ComponentCategory)
    (description: string)

record Comments =
  leading :: "string list"
  trailing :: "string list"
  inner :: "string list"
  jsdoc :: "string list"

record NlpComponentContext =
  ctx_filePath :: string
  ctx_props :: "PropDefinition list"
  jsxTextContent :: "string list"
  comments :: Comments
  importSources :: "string list"
  htmlTagsUsed :: "string list"

section \<open>NLPProcessor (nlp/semantic-processor)\<close>

text \<open>
  \<open>categorizeComponent(componentName, props, additionalContext)\<close>. The four tests are
  tried in the order of the source; \<open>additionalContext\<close> is a parameter the body never
  reads.
\<close>

definition categorizeComponent ::
  "string \<Rightarrow> PropDefinition list \<Rightarrow> NlpComponentContext \<Rightarrow> ComponentCategory" where
  "categorizeComponent componentName ps additionalContext =
    (let nm = toLowerCase componentName;
         propNames = map (\<lambda>p. toLowerCase (prop_name p)) ps
     in
      if str_includes nm ''form'' \<or> str_includes nm ''input'' \<or> str_includes nm ''login''
         \<or> str_includes nm ''register''
         \<or> list_ex (\<lambda>p. str_includes p ''onsubmit'' \<or> str_includes p ''form'') propNames
      then FORM
      else if str_includes nm ''nav'' \<or> str_includes nm ''menu'' \<or> str_includes nm ''link''
         \<or> str_includes nm ''route''
         \<or> list_ex (\<lambda>p. str_includes p ''href'' \<or> str_includes p ''to'' \<or> str_includes p ''path'') propNames
      then NAVIGATION
      else if str_includes nm ''button'' \<or> str_includes nm ''click'' \<or> str_includes nm ''action''
         \<or> list_ex (\<lambda>p. str_includes p ''onclick'' \<or> str_includes p ''onpress'') propNames
      then INTERACTION
      else if str_includes nm ''view'' \<or> str_includes nm ''display'' \<or> str_includes nm ''show''
         \<or> str_includes nm ''card'' \<or> str_includes nm ''list'' \<or> str_includes nm ''table''
      then DISPLAY
      else LAYOUT)"

text \<open>
  \<open>semanticMappings\<close>, in declaration order (\<open>Object.entries\<close> walks the keys in the
  order they were written).
\<close>

definition semanticMappings :: "(string \<times> string) list" where
  "semanticMappings =
    [(''Login'', ''Sign in to your account''),
     (''Register'', ''Create a new account''),
     (''SignUp'', ''Create a new account''),
     (''Profile'', ''Manage your profile information''),
     (''Settings'', ''Configure your preferences''),
     (''Dashboard'', ''View your overview and statistics''),
     (''User'', ''Your account information''),
     (''Password'', ''Manage password security''),
     (''Notification'', ''Manage your alerts and messages''),
     (''Search'', ''Find what you need''),
     (''Filter'', ''Narrow down your results''),
     (''Cart'', ''Your shopping cart''),
     (''Checkout'', ''Complete your purchase''),
     (''Product'', ''View product details''),
     (''Admin'', ''Administrative controls''),
     (''Navigation'', ''Navigate through the application''),
     (''Menu'', ''Access different sections''),
     (''Form'', ''Enter your information''),
     (''List'', ''Browse through items''),
     (''Table'', ''View structured data''),
     (''Modal'', ''View additional information''),
     (''Popup'', ''Quick information or action''),
     (''Button'', ''Perform an action''),
     (''Input'', ''Enter information''),
     (''Select'', ''Choose from options''),
     (''Dropdown'', ''Select from a list''),
     (''Checkbox'', ''Toggle an option''),
     (''Radio'', ''Choose one option''),
     (''Sidebar'', ''Access additional navigation''),
     (''Header'', ''Main navigation area''),
     (''Footer'', ''Additional information'')]"

text \<open>\<open>.replace(/([a-z])([A-Z])/g, '$1 $2')\<close>: the scan resumes after the matched pair.\<close>

fun camelToSpaces :: "string \<Rightarrow> string" where
  "camelToSpaces (a # b # cs) =
     (if isLower a \<and> isUpper b then a # CHR '' '' # b # camelToSpaces cs
      else a # camelToSpaces (b # cs))"
| "camelToSpaces cs = cs"

text \<open>\<open>.replace(/([A-Z])([A-Z][a-z])/g, '$1 $2')\<close>: the scan resumes after the three
  matched characters.\<close>

fun pascalToSpaces :: "string \<Rightarrow> string" where
  "pascalToSpaces (a # b # c # cs) =
     (if isUpper a \<and> isUpper b \<and> isLower c then a # CHR '' '' # b # c # pascalToSpaces cs
      else a # pascalToSpaces (b # c # cs))"
| "pascalToSpaces cs = cs"

text \<open>\<open>.replace(/^./, (str) => str.toUpperCase())\<close>.\<close>

fun capitalizeFirst :: "string \<Rightarrow> string" where
  "capitalizeFirst [] = []"
| "capitalizeFirst (c # cs) = toUpperChar c # cs"

text \<open>The first mapping whose key occurs in the name (the \<open>for ... of Object.entries\<close> loop).\<close>

fun partialMatch :: "(string \<times> string) list \<Rightarrow> string \<Rightarrow> string option" where
  "partialMatch [] componentName = None"
| "partialMatch ((pat, d) # rest) componentName =
     (if str_includes componentName pat then Some d else partialMatch rest componentName)"

text \<open>
  A lookup \<open>table[key]\<close> used as a condition: present and not the empty string. The
  tables are taken with their own keys only; names that every JavaScript object inherits
  (\<open>constructor\<close>, \<open>toString\<close>) are not modelled.
\<close>

definition truthyLookup :: "(string \<times> string) list \<Rightarrow> string \<Rightarrow> string option" where
  "truthyLookup table k =
     (case map_of table k of
        None \<Rightarrow> None
      | Some v \<Rightarrow> if v = [] then None else Some v)"

text \<open>
  \<open>generateDescription(componentName, props, additionalContext)\<close>, with the
  \<open>customMappings\<close> the processor was constructed with.
\<close>

definition generateDescription ::
  "(string \<times> string) list \<Rightarrow> string \<Rightarrow> PropDefinition list \<Rightarrow> NlpComponentContext \<Rightarrow> string" where
  "generateDescription customMappings componentName ps additionalContext =
    (case truthyLookup customMappings componentName of
       Some d \<Rightarrow> d
     | None \<Rightarrow>
        (case truthyLookup semanticMappings componentName of
           Some d \<Rightarrow> d
         | None \<Rightarrow>
            (case partialMatch semanticMappings componentName of
               Some d \<Rightarrow> d
             | None \<Rightarrow> capitalizeFirst (pascalToSpaces (camelToSpaces componentName)))))"

section \<open>PatternMatcher (nlp/pattern-matcher)\<close>

record UIPattern =
  ui_components :: "string list"
  ui_actions :: "string list"
  ui_description :: string
  ui_userGoal :: string

text \<open>
  \<open>confidence\<close> is a JavaScript number; it is modelled by the exact rational the
  expression denotes.
\<close>

record DetectedPattern =
  pattern_name :: string
  pattern_description :: string
  userGoal :: string
  pattern_components :: "ComponentMetadata list"
  pattern_actions :: "UserAction list"
  confidence :: rat

record WorkflowStep =
  step_name :: string
  step_description :: string
  step_actions :: "UserAction list"

record Workflow =
  workflow_name :: string
  workflow_description :: string
  steps :: "WorkflowStep list"
  workflow_components :: "ComponentMetadata list"

definition patterns :: "(string \<times> UIPattern) list" where
  "patterns =
    [(''authentication'',
      \<lparr>ui_components = [''login'', ''signin'', ''register'', ''signup'', ''password'', ''auth''],
       ui_actions = [''submit credentials'', ''create account'', ''reset password''],
       ui_description = ''User authentication flow'',
       ui_userGoal = ''Access your account securely''\<rparr>),
     (''search'',
      \<lparr>ui_components = [''search'', ''filter'', ''results'', ''query''],
       ui_actions = [''enter search term'', ''apply filter'', ''view results''],
       ui_description = ''Search and filtering functionality'',
       ui_userGoal = ''Find specific information''\<rparr>),
     (''form-submission'',
      \<lparr>ui_components = [''form'', ''input'', ''submit'', ''field'', ''validation''],
       ui_actions = [''fill form'', ''validate input'', ''submit data''],
       ui_description = ''Data entry and submission'',
       ui_userGoal = ''Submit information''\<rparr>),
     (''crud'',
      \<lparr>ui_components = [''create'', ''add'', ''edit'', ''update'', ''delete'', ''remove'', ''list''],
       ui_actions = [''create new'', ''update existing'', ''delete item'', ''view items''],
       ui_description = ''Create, Read, Update, Delete operations'',
       ui_userGoal = ''Manage your data''\<rparr>),
     (''navigation'',
      \<lparr>ui_components = [''nav'', ''menu'', ''sidebar'', ''header'', ''footer'', ''link'', ''route''],
       ui_actions = [''navigate to'', ''open page'', ''go to section''],
       ui_description = ''Navigation through the application'',
       ui_userGoal = ''Move between different sections''\<rparr>),
     (''dashboard'',
      \<lparr>ui_components = [''dashboard'', ''overview'', ''stats'', ''analytics'', ''widgets''],
       ui_actions = [''view statistics'', ''monitor data'', ''check status''],
       ui_description = ''Overview and analytics display'',
       ui_userGoal = ''Get a comprehensive view of your data''\<rparr>),
     (''settings'',
      \<lparr>ui_components = [''settings'', ''preferences'', ''config'', ''options'', ''profile''],
       ui_actions = [''change settings'', ''update preferences'', ''configure options''],
       ui_description = ''User preferences and configuration'',
       ui_userGoal = ''Customize your experience''\<rparr>),
     (''notification'',
      \<lparr>ui_components = [''notification'', ''alert'', ''message'', ''toast''],
       ui_actions = [''view notifications'', ''mark as read'', ''dismiss alert''],
       ui_description = ''User notification system'',
       ui_userGoal = ''Stay informed about important updates''\<rparr>),
     (''cart-checkout'',
      \<lparr>ui_components = [''cart'', ''basket'', ''checkout'', ''payment'', ''order''],
       ui_actions = [''add to cart'', ''remove item'', ''complete purchase''],
       ui_description = ''Shopping cart and checkout process'',
       ui_userGoal = ''Complete your purchase''\<rparr>),
     (''wizard'',
      \<lparr>ui_components = [''wizard'', ''step'', ''progress'', ''multi-step'', ''flow''],
       ui_actions = [''proceed to next step'', ''go back'', ''complete process''],
       ui_description = ''Step-by-step guided process'',
       ui_userGoal = ''Complete a multi-step process''\<rparr>)]"

definition matchesPattern :: "string \<Rightarrow> string list \<Rightarrow> bool" where
  "matchesPattern nm patternKeywords = list_ex (\<lambda>keyword. str_includes nm keyword) patternKeywords"

definition findMatchingActions :: "UserAction list \<Rightarrow> string list \<Rightarrow> UserAction list" where
  "findMatchingActions actions patternActions =
     filter (\<lambda>a. list_ex (\<lambda>pat.
                str_includes (toLowerCase (action_description a)) (toLowerCase pat)
              \<or> str_includes (toLowerCase (outcome a)) (toLowerCase pat)) patternActions)
       actions"

definition calculateConfidence ::
  "ComponentMetadata list \<Rightarrow> UserAction list \<Rightarrow> UIPattern \<Rightarrow> rat" where
  "calculateConfidence matchingComponents matchingActions pattern =
    (let componentScore =
           of_nat (length matchingComponents) / of_nat (length (ui_components pattern));
         actionScore =
           (if length matchingActions > 0
            then of_nat (length matchingActions) / of_nat (length (ui_actions pattern))
            else 0)
     in componentScore * (7 / 10) + actionScore * (3 / 10))"

text \<open>The body of the \<open>for ... of Object.entries(this.patterns)\<close> loop for one pattern.\<close>

definition detectPattern ::
  "ComponentMetadata list \<Rightarrow> string \<times> UIPattern \<Rightarrow> DetectedPattern list" where
  "detectPattern components entry =
    (let patternName = fst entry; pattern = snd entry;
         matchingComponents =
           filter (\<lambda>c. matchesPattern (toLowerCase (name c)) (ui_components pattern)) components
     in if length matchingComponents > 0
        then
          (let matchingActions =
                 findMatchingActions (concat (map userActions matchingComponents))
                   (ui_actions pattern)
           in [\<lparr>pattern_name = patternName,
                pattern_description = ui_description pattern,
                userGoal = ui_userGoal pattern,
                pattern_components = matchingComponents,
                pattern_actions = matchingActions,
                confidence = calculateConfidence matchingComponents matchingActions pattern\<rparr>])
        else [])"

text \<open>
  \<open>detectPatterns\<close>: one pass over the table, then \<open>sort((a, b) => b.confidence -
  a.confidence)\<close>, a stable sort by descending confidence; \<^const>\<open>sort_key\<close> is the stable
  insertion sort.
\<close>

definition detectPatterns :: "ComponentMetadata list \<Rightarrow> DetectedPattern list" where
  "detectPatterns components =
     sort_key (\<lambda>d. - confidence d) (concat (map (detectPattern components) patterns))"


text \<open>
  The tests \<open>c.name.toLowerCase().includes(k)\<close>, \<open>a.description.toLowerCase().includes(k)\<close>,
  \<open>a.trigger.toLowerCase().includes(k)\<close> and \<open>a.outcome.toLowerCase().includes(k)\<close> that the
  workflow methods repeat.
\<close>

definition nameHas :: "ComponentMetadata \<Rightarrow> string \<Rightarrow> bool" where
  "nameHas c k = str_includes (toLowerCase (name c)) k"

definition descHas :: "UserAction \<Rightarrow> string \<Rightarrow> bool" where
  "descHas a k = str_includes (toLowerCase (action_description a)) k"

definition triggerHas :: "UserAction \<Rightarrow> string \<Rightarrow> bool" where
  "triggerHas a k = str_includes (toLowerCase (trigger a)) k"

definition outcomeHas :: "UserAction \<Rightarrow> string \<Rightarrow> bool" where
  "outcomeHas a k = str_includes (toLowerCase (outcome a)) k"

definition hasAuthenticationFlow :: "ComponentMetadata list \<Rightarrow> UserAction list \<Rightarrow> bool" where
  "hasAuthenticationFlow components actions =
    (list_ex (\<lambda>c. nameHas c ''login'' \<or> nameHas c ''signin'' \<or> nameHas c ''register'') components
     \<and> list_ex (\<lambda>a. descHas a ''sign in'' \<or> descHas a ''log in'' \<or> descHas a ''create account'')
          actions)"

definition hasSearchFlow :: "ComponentMetadata list \<Rightarrow> UserAction list \<Rightarrow> bool" where
  "hasSearchFlow components actions =
    (list_ex (\<lambda>c. nameHas c ''search'' \<or> nameHas c ''filter'' \<or> nameHas c ''results'') components
     \<and> list_ex (\<lambda>a. descHas a ''search'' \<or> descHas a ''filter'' \<or> descHas a ''find'') actions)"

definition hasFormSubmissionFlow :: "ComponentMetadata list \<Rightarrow> UserAction list \<Rightarrow> bool" where
  "hasFormSubmissionFlow components actions =
    (list_ex (\<lambda>c. nameHas c ''form'' \<or> semanticCategory c = FORM) components
     \<and> list_ex (\<lambda>a. action_type a = submit \<or> descHas a ''submit'' \<or> descHas a ''save'') actions)"

definition hasCRUDFlow :: "ComponentMetadata list \<Rightarrow> UserAction list \<Rightarrow> bool" where
  "hasCRUDFlow components actions =
    (list_ex (\<lambda>c. nameHas c ''create'' \<or> nameHas c ''edit'' \<or> nameHas c ''delete''
                 \<or> nameHas c ''list'') components
     \<and> list_ex (\<lambda>a. descHas a ''create'' \<or> descHas a ''add'' \<or> descHas a ''edit''
                 \<or> descHas a ''update'' \<or> descHas a ''delete'' \<or> descHas a ''remove'') actions)"

definition hasCheckoutFlow :: "ComponentMetadata list \<Rightarrow> UserAction list \<Rightarrow> bool" where
  "hasCheckoutFlow components actions =
    (list_ex (\<lambda>c. nameHas c ''cart'' \<or> nameHas c ''checkout'' \<or> nameHas c ''payment'') components
     \<and> list_ex (\<lambda>a. descHas a ''add to cart'' \<or> descHas a ''checkout'' \<or> descHas a ''payment''
                 \<or> descHas a ''purchase'') actions)"

definition createAuthenticationWorkflow ::
  "ComponentMetadata list \<Rightarrow> UserAction list \<Rightarrow> Workflow" where
  "createAuthenticationWorkflow components actions =
    \<lparr>workflow_name = ''Authentication'',
     workflow_description = ''Sign in or create a new account'',
     steps =
      [\<lparr>step_name = ''Enter credentials'',
        step_description = ''Enter your username/email and password'',
        step_actions = filter (\<lambda>a. action_type a = input \<and>
            (triggerHas a ''username'' \<or> triggerHas a ''email'' \<or> triggerHas a ''password''))
          actions\<rparr>,
       \<lparr>step_name = ''Submit credentials'',
        step_description = ''Click the sign in button to access your account'',
        step_actions = filter (\<lambda>a. action_type a = submit \<or>
            (action_type a = click \<and> (triggerHas a ''login'' \<or> triggerHas a ''signin'')))
          actions\<rparr>],
     workflow_components =
       filter (\<lambda>c. nameHas c ''login'' \<or> nameHas c ''signin'' \<or> nameHas c ''auth'') components\<rparr>"

definition createSearchWorkflow ::
  "ComponentMetadata list \<Rightarrow> UserAction list \<Rightarrow> Workflow" where
  "createSearchWorkflow components actions =
    \<lparr>workflow_name = ''Search and Filter'',
     workflow_description = ''Find and narrow down results'',
     steps =
      [\<lparr>step_name = ''Enter search term'',
        step_description = ''Type what you want to find in the search box'',
        step_actions = filter (\<lambda>a. action_type a = input \<and> triggerHas a ''search'') actions\<rparr>,
       \<lparr>step_name = ''Apply filters'',
        step_description = ''Narrow down results by selecting specific criteria'',
        step_actions = filter (\<lambda>a. descHas a ''filter'' \<or> triggerHas a ''filter'') actions\<rparr>,
       \<lparr>step_name = ''View results'',
        step_description = ''Browse through the matching items'',
        step_actions = filter (\<lambda>a. outcomeHas a ''results'' \<or> outcomeHas a ''found'') actions\<rparr>],
     workflow_components =
       filter (\<lambda>c. nameHas c ''search'' \<or> nameHas c ''filter'' \<or> nameHas c ''results'')
         components\<rparr>"

definition createFormWorkflow ::
  "ComponentMetadata list \<Rightarrow> UserAction list \<Rightarrow> Workflow" where
  "createFormWorkflow components actions =
    \<lparr>workflow_name = ''Form Submission'',
     workflow_description = ''Enter and submit information'',
     steps =
      [\<lparr>step_name = ''Fill in the form'',
        step_description = ''Enter the required information in the form fields'',
        step_actions = filter (\<lambda>a. action_type a = input) actions\<rparr>,
       \<lparr>step_name = ''Validate information'',
        step_description = ''Ensure all information is correct and complete'',
        step_actions = filter (\<lambda>a. descHas a ''validate'' \<or> descHas a ''check'') actions\<rparr>,
       \<lparr>step_name = ''Submit the form'',
        step_description = ''Send the information by clicking the submit button'',
        step_actions = filter (\<lambda>a. action_type a = submit \<or>
            (action_type a = click \<and> (triggerHas a ''submit'' \<or> triggerHas a ''save'')))
          actions\<rparr>],
     workflow_components =
       filter (\<lambda>c. semanticCategory c = FORM \<or> nameHas c ''form'') components\<rparr>"

definition createCRUDWorkflow ::
  "ComponentMetadata list \<Rightarrow> UserAction list \<Rightarrow> Workflow" where
  "createCRUDWorkflow components actions =
    \<lparr>workflow_name = ''Manage Items'',
     workflow_description = ''Create, view, edit and delete items'',
     steps =
      [\<lparr>step_name = ''View items'',
        step_description = ''Browse through the available items'',
        step_actions = filter (\<lambda>a. outcomeHas a ''view'' \<or> outcomeHas a ''list''
            \<or> outcomeHas a ''display'') actions\<rparr>,
       \<lparr>step_name = ''Create new item'',
        step_description = ''Add a new item by filling in the required information'',
        step_actions = filter (\<lambda>a. descHas a ''create'' \<or> descHas a ''add'' \<or> descHas a ''new'')
          actions\<rparr>,
       \<lparr>step_name = ''Edit item'',
        step_description = ''Modify an existing item'',
        step_actions = filter (\<lambda>a. descHas a ''edit'' \<or> descHas a ''update''
            \<or> descHas a ''modify'') actions\<rparr>,
       \<lparr>step_name = ''Delete item'',
        step_description = ''Remove an item that is no longer needed'',
        step_actions = filter (\<lambda>a. descHas a ''delete'' \<or> descHas a ''remove'') actions\<rparr>],
     workflow_components =
       filter (\<lambda>c. nameHas c ''create'' \<or> nameHas c ''edit'' \<or> nameHas c ''delete''
                \<or> nameHas c ''list'') components\<rparr>"

definition createCheckoutWorkflow ::
  "ComponentMetadata list \<Rightarrow> UserAction list \<Rightarrow> Workflow" where
  "createCheckoutWorkflow components actions =
    \<lparr>workflow_name = ''Shopping Checkout'',
     workflow_description = ''Complete a purchase'',
     steps =
      [\<lparr>step_name = ''Add items to cart'',
        step_description = ''Select items and add them to your shopping cart'',
        step_actions = filter (\<lambda>a. descHas a ''add to cart'' \<or> outcomeHas a ''added to cart'')
          actions\<rparr>,
       \<lparr>step_name = ''Review cart'',
        step_description = ''Check the items in your cart and make any adjustments'',
        step_actions = filter (\<lambda>a. outcomeHas a ''view cart'' \<or> triggerHas a ''cart'') actions\<rparr>,
       \<lparr>step_name = ''Proceed to checkout'',
        step_description = ''Begin the checkout process'',
        step_actions = filter (\<lambda>a. descHas a ''checkout'' \<or> outcomeHas a ''checkout'') actions\<rparr>,
       \<lparr>step_name = ''Enter shipping information'',
        step_description = ''Provide your shipping details'',
        step_actions = filter (\<lambda>a. descHas a ''shipping'' \<or> triggerHas a ''address'') actions\<rparr>,
       \<lparr>step_name = ''Enter payment information'',
        step_description = ''Provide your payment details'',
        step_actions = filter (\<lambda>a. descHas a ''payment'' \<or> triggerHas a ''payment''
            \<or> triggerHas a ''credit card'') actions\<rparr>,
       \<lparr>step_name = ''Complete purchase'',
        step_description = ''Finalize your order'',
        step_actions = filter (\<lambda>a. descHas a ''complete'' \<or> descHas a ''purchase''
            \<or> descHas a ''order'') actions\<rparr>],
     workflow_components =
       filter (\<lambda>c. nameHas c ''cart'' \<or> nameHas c ''checkout'' \<or> nameHas c ''payment''
                \<or> nameHas c ''order'') components\<rparr>"

definition detectWorkflows :: "ComponentMetadata list \<Rightarrow> Workflow list" where
  "detectWorkflows components =
    (let allActions = concat (map userActions components) in
       (if hasAuthenticationFlow components allActions
        then [createAuthenticationWorkflow components allActions] else [])
     @ (if hasSearchFlow components allActions
        then [createSearchWorkflow components allActions] else [])
     @ (if hasFormSubmissionFlow components allActions
        then [createFormWorkflow components allActions] else [])
     @ (if hasCRUDFlow components allActions
        then [createCRUDWorkflow components allActions] else [])
     @ (if hasCheckoutFlow components allActions
        then [createCheckoutWorkflow components allActions] else []))"


section \<open>Paths (the POSIX functions of Node's \<open>path\<close> module that the code calls)\<close>

text \<open>\<open>s.split(sep)\<close> for a one-character separator class: \<open>.split\<close> is \<open>[]\<close>.\<close>

fun splitOn :: "(char \<Rightarrow> bool) \<Rightarrow> string \<Rightarrow> string list" where
  "splitOn sep [] = [[]]"
| "splitOn sep (c # cs) =
     (if sep c then [] # splitOn sep cs
      else (case splitOn sep cs of
              [] \<Rightarrow> [[c]]
            | w # ws \<Rightarrow> (c # w) # ws))"

fun joinWith :: "string \<Rightarrow> string list \<Rightarrow> string" where
  "joinWith sep [] = []"
| "joinWith sep [x] = x"
| "joinWith sep (x # y # ys) = x @ sep @ joinWith sep (y # ys)"

definition isAbsolute :: "string \<Rightarrow> bool" where
  "isAbsolute p = (case p of [] \<Rightarrow> False | c # cs \<Rightarrow> c = CHR ''/'')"

definition segments :: "string \<Rightarrow> string list" where
  "segments p = filter (\<lambda>seg. seg \<noteq> []) (splitOn (\<lambda>c. c = CHR ''/'') p)"

text \<open>Resolving \<open>.\<close> and \<open>..\<close> in an absolute path; \<open>acc\<close> holds the segments kept so far,
  innermost first. \<open>..\<close> at the root stays at the root.\<close>

fun resolveSegments :: "string list \<Rightarrow> string list \<Rightarrow> string list" where
  "resolveSegments acc [] = rev acc"
| "resolveSegments acc (seg # rest) =
     (if seg = ''.'' then resolveSegments acc rest
      else if seg = ''..'' then resolveSegments (tl acc) rest
      else resolveSegments (seg # acc) rest)"

text \<open>\<open>path.resolve(p)\<close> as the list of segments below the root, for the working
  directory \<open>cwd\<close>.\<close>

definition resolve :: "string \<Rightarrow> string \<Rightarrow> string list" where
  "resolve cwd p =
     resolveSegments [] (if isAbsolute p then segments p else segments cwd @ segments p)"

fun dropCommonPrefix :: "string list \<Rightarrow> string list \<Rightarrow> string list \<times> string list" where
  "dropCommonPrefix (x # xs) (y # ys) =
     (if x = y then dropCommonPrefix xs ys else (x # xs, y # ys))"
| "dropCommonPrefix xs ys = (xs, ys)"

text \<open>\<open>path.relative(from, to)\<close>: one \<open>..\<close> for each segment of \<open>from\<close> below the common
  ancestor, then the segments of \<open>to\<close> below it.\<close>

definition relative :: "string \<Rightarrow> string \<Rightarrow> string \<Rightarrow> string" where
  "relative cwd from to =
     (case dropCommonPrefix (resolve cwd from) (resolve cwd to) of
        (up, down) \<Rightarrow> joinWith ''/'' (replicate (length up) ''..'' @ down))"

definition lastSegment :: "string \<Rightarrow> string" where
  "lastSegment p = (case rev (segments p) of [] \<Rightarrow> [] | seg # rest \<Rightarrow> seg)"

text \<open>\<open>path.extname(p)\<close>: from the last dot of the last segment, unless there is no dot,
  the dot is its first character, or the segment is \<open>..\<close>.\<close>

definition extname :: "string \<Rightarrow> string" where
  "extname p =
     (let b = lastSegment p;
          afterDot = takeWhile (\<lambda>c. c \<noteq> CHR ''.'') (rev b)
      in if CHR ''.'' \<notin> set b \<or> b = ''..'' \<or> length b = length afterDot + 1 then []
         else drop (length b - (length afterDot + 1)) b)"

text \<open>\<open>path.basename(p, ext)\<close>: the last segment, without \<open>ext\<close> when \<open>ext\<close> is a proper
  suffix of it.\<close>

definition basename :: "string \<Rightarrow> string \<Rightarrow> string" where
  "basename p ext =
     (let b = lastSegment p in
      if ext \<noteq> [] \<and> ext = p then []
      else if ext \<noteq> [] \<and> length ext < length b \<and> drop (length b - length ext) b = ext
      then take (length b - length ext) b
      else b)"

section \<open>The syntax tree\<close>

text \<open>
  The tree the parser returns, with one constructor for each node type the analyzer
  inspects and \<open>Other\<close> (node type and children in visiting order) for the rest. Nodes
  carry the fields the analyzer reads; comments are not part of the tree.
\<close>

datatype TSType =
  TSStringKeyword | TSNumberKeyword | TSBooleanKeyword | TSFunctionType | TSTypeLiteral
  | TSArrayType | TSOtherType

datatype node =
    Program "node list"
  | Identifier string
  | StringLiteral string
  | ExportDefaultDeclaration node
  | ExportNamedDeclaration "node option"
  | FunctionDeclaration "string option" "node list" node
  | ClassDeclaration "string option" "node list"
  | ArrowFunctionExpression "node list" node
  | AssignmentExpression node node
  | MemberExpression node node
  | ObjectExpression "node list"
  | ObjectProperty node node
  | ObjectPattern "node list"
  | TSInterfaceDeclaration string "node list"
  | TSPropertySignature node bool "TSType option"
  | ImportDeclaration string
  | JSXElement node "node list"
  | JSXOpeningElement "string option" "node list"
  | JSXText string
  | JSXExpressionContainer node
  | Other string "node list"

text \<open>
  \<open>traverse(ast, visitor)\<close> enters the nodes depth first, a node before its children and
  the children in field order. None of the visitors below changes the tree or skips a
  subtree, so a traversal is a fold of the visitor over this list.
\<close>

fun preorder :: "node \<Rightarrow> node list" where
  "preorder (Program body) = Program body # concat (map preorder body)"
| "preorder (Identifier x) = [Identifier x]"
| "preorder (StringLiteral x) = [StringLiteral x]"
| "preorder (ExportDefaultDeclaration d) = ExportDefaultDeclaration d # preorder d"
| "preorder (ExportNamedDeclaration None) = [ExportNamedDeclaration None]"
| "preorder (ExportNamedDeclaration (Some d)) = ExportNamedDeclaration (Some d) # preorder d"
| "preorder (FunctionDeclaration i params body) =
     FunctionDeclaration i params body # concat (map preorder params) @ preorder body"
| "preorder (ClassDeclaration i members) =
     ClassDeclaration i members # concat (map preorder members)"
| "preorder (ArrowFunctionExpression params body) =
     ArrowFunctionExpression params body # concat (map preorder params) @ preorder body"
| "preorder (AssignmentExpression l r) = AssignmentExpression l r # preorder l @ preorder r"
| "preorder (MemberExpression obj prop) = MemberExpression obj prop # preorder obj @ preorder prop"
| "preorder (ObjectExpression properties) =
     ObjectExpression properties # concat (map preorder properties)"
| "preorder (ObjectProperty k v) = ObjectProperty k v # preorder k @ preorder v"
| "preorder (ObjectPattern properties) =
     ObjectPattern properties # concat (map preorder properties)"
| "preorder (TSInterfaceDeclaration i members) =
     TSInterfaceDeclaration i members # concat (map preorder members)"
| "preorder (TSPropertySignature k opt ty) = TSPropertySignature k opt ty # preorder k"
| "preorder (ImportDeclaration src) = [ImportDeclaration src]"
| "preorder (JSXElement opening kids) =
     JSXElement opening kids # preorder opening @ concat (map preorder kids)"
| "preorder (JSXOpeningElement tag attributes) =
     JSXOpeningElement tag attributes # concat (map preorder attributes)"
| "preorder (JSXText x) = [JSXText x]"
| "preorder (JSXExpressionContainer e) = JSXExpressionContainer e # preorder e"
| "preorder (Other kind kids) = Other kind kids # concat (map preorder kids)"


section \<open>ReactAnalyzer (analyzers/react)\<close>

subsection \<open>extractComponentName\<close>

text \<open>
  The two visitors of \<open>extractComponentName\<close>, as one step on the variable
  \<open>componentName\<close>: each assigns when its test passes and leaves the variable alone
  otherwise.
\<close>

fun declaredName :: "node \<Rightarrow> string option" where
  "declaredName (FunctionDeclaration (Some n) params body) = Some n"
| "declaredName (ClassDeclaration (Some n) members) = Some n"
| "declaredName other = None"

fun nameVisitor :: "string \<Rightarrow> node \<Rightarrow> string" where
  "nameVisitor componentName (ExportDefaultDeclaration (Identifier n)) = n"
| "nameVisitor componentName (ExportDefaultDeclaration d) =
     (case declaredName d of Some n \<Rightarrow> n | None \<Rightarrow> componentName)"
| "nameVisitor componentName (ExportNamedDeclaration (Some d)) =
     (case declaredName d of Some n \<Rightarrow> n | None \<Rightarrow> componentName)"
| "nameVisitor componentName other = componentName"

text \<open>The file name with \<open>-\<close> and \<open>_\<close> removed and each part capitalised.\<close>

definition nameFromFile :: "string \<Rightarrow> string" where
  "nameFromFile file =
     concat (map capitalizeFirst
       (splitOn (\<lambda>c. c = CHR ''-'' \<or> c = CHR ''_'') (basename file (extname file))))"

definition extractComponentName :: "string \<Rightarrow> node \<Rightarrow> string" where
  "extractComponentName file ast =
     (let componentName = foldl nameVisitor [] (preorder ast)
      in if componentName = [] then nameFromFile file else componentName)"

subsection \<open>extractProps\<close>

text \<open>The descriptor of one \<open>propTypes\<close> entry: \<open>(type, required)\<close>.\<close>

fun propTypeOf :: "node \<Rightarrow> string \<times> bool" where
  "propTypeOf (MemberExpression (Identifier obj) (Identifier prop)) = (obj, prop = ''isRequired'')"
| "propTypeOf other = (''any'', False)"

fun propTypesProperty :: "(string \<times> string \<times> bool) list \<Rightarrow> node \<Rightarrow> (string \<times> string \<times> bool) list" where
  "propTypesProperty propTypes (ObjectProperty (Identifier propName) v) =
     AList.update propName (propTypeOf v) propTypes"
| "propTypesProperty propTypes other = propTypes"

text \<open>The \<open>AssignmentExpression\<close> visitor: \<open>X.propTypes = { ... }\<close> writes each entry into
  the record \<open>propTypes\<close> (an assignment to a key already there keeps the key's place).\<close>

fun propTypesVisitor :: "(string \<times> string \<times> bool) list \<Rightarrow> node \<Rightarrow> (string \<times> string \<times> bool) list" where
  "propTypesVisitor propTypes
      (AssignmentExpression (MemberExpression obj (Identifier prop)) (ObjectExpression properties)) =
     (if prop = ''propTypes'' then foldl propTypesProperty propTypes properties else propTypes)"
| "propTypesVisitor propTypes other = propTypes"

fun tsTypeName :: "TSType option \<Rightarrow> string" where
  "tsTypeName (Some TSStringKeyword) = ''string''"
| "tsTypeName (Some TSNumberKeyword) = ''number''"
| "tsTypeName (Some TSBooleanKeyword) = ''boolean''"
| "tsTypeName (Some TSFunctionType) = ''function''"
| "tsTypeName (Some TSTypeLiteral) = ''object''"
| "tsTypeName (Some TSArrayType) = ''array''"
| "tsTypeName other = ''any''"

fun interfaceMember :: "PropDefinition list \<Rightarrow> node \<Rightarrow> PropDefinition list" where
  "interfaceMember ps (TSPropertySignature (Identifier propName) optional ty) =
     ps @ [\<lparr>prop_name = propName, prop_type = tsTypeName ty, required = \<not> optional\<rparr>]"
| "interfaceMember ps other = ps"

fun interfaceVisitor :: "PropDefinition list \<Rightarrow> node \<Rightarrow> PropDefinition list" where
  "interfaceVisitor ps (TSInterfaceDeclaration i members) =
     (if str_includes i ''Props'' then foldl interfaceMember ps members else ps)"
| "interfaceVisitor ps other = ps"

fun destructuredProperty :: "PropDefinition list \<Rightarrow> node \<Rightarrow> PropDefinition list" where
  "destructuredProperty ps (ObjectProperty (Identifier propName) v) =
     (if list_ex (\<lambda>p. prop_name p = propName) ps then ps
      else ps @ [\<lparr>prop_name = propName, prop_type = ''any'', required = False\<rparr>])"
| "destructuredProperty ps other = ps"

fun extractFunctionComponentProps :: "node list \<Rightarrow> PropDefinition list \<Rightarrow> PropDefinition list" where
  "extractFunctionComponentProps (ObjectPattern properties # rest) ps =
     foldl destructuredProperty ps properties"
| "extractFunctionComponentProps params ps = ps"

fun paramsVisitor :: "PropDefinition list \<Rightarrow> node \<Rightarrow> PropDefinition list" where
  "paramsVisitor ps (FunctionDeclaration i params body) =
     (if length params > 0 then extractFunctionComponentProps params ps else ps)"
| "paramsVisitor ps (ArrowFunctionExpression params body) =
     (if length params > 0 then extractFunctionComponentProps params ps else ps)"
| "paramsVisitor ps other = ps"

definition propTypesProps :: "node \<Rightarrow> PropDefinition list" where
  "propTypesProps ast =
     map (\<lambda>(n, ty, req). \<lparr>prop_name = n, prop_type = ty, required = req\<rparr>)
       (foldl propTypesVisitor [] (preorder ast))"

definition interfaceProps :: "node \<Rightarrow> PropDefinition list" where
  "interfaceProps ast = foldl interfaceVisitor [] (preorder ast)"

text \<open>
  \<open>extractProps\<close>: the interface traversal pushes first, the \<open>propTypes\<close> entries are
  pushed next, the parameter traversal last.
\<close>

definition extractProps :: "node \<Rightarrow> PropDefinition list" where
  "extractProps ast =
     foldl paramsVisitor (interfaceProps ast @ propTypesProps ast) (preorder ast)"

subsection \<open>extractUserActions\<close>

text \<open>\<open>s.replace(pat, rep)\<close> with a string pattern: the first occurrence only.\<close>

fun replaceFirst :: "string \<Rightarrow> string \<Rightarrow> string \<Rightarrow> string" where
  "replaceFirst [] pat rep = (if pat = [] then rep else [])"
| "replaceFirst (c # cs) pat rep =
     (if startsWith (c # cs) pat then rep @ drop (length pat) (c # cs)
      else c # replaceFirst cs pat rep)"

definition formatTriggerName :: "string \<Rightarrow> string" where
  "formatTriggerName nm = toLowerCase (pascalToSpaces (camelToSpaces nm))"

definition createClickAction :: "string \<Rightarrow> string \<Rightarrow> UserAction" where
  "createClickAction propName componentName =
     (let triggerPart = replaceFirst propName ''onClick'' [];
          trg = (if triggerPart = [] then componentName else triggerPart)
      in \<lparr>action_type = click, trigger = trg,
          action_description = ''Click the '' @ formatTriggerName trg,
          outcome = ''Performs the '' @ formatTriggerName trg @ '' action''\<rparr>)"

definition createSubmitAction :: "string \<Rightarrow> string \<Rightarrow> UserAction" where
  "createSubmitAction propName componentName =
     \<lparr>action_type = submit, trigger = componentName,
      action_description = ''Submit the '' @ formatTriggerName componentName,
      outcome = ''Sends the form data''\<rparr>"

definition createInputAction :: "string \<Rightarrow> string \<Rightarrow> UserAction" where
  "createInputAction propName componentName =
     (let triggerPart = replaceFirst (replaceFirst propName ''onChange'' []) ''onInput'' [];
          trg = (if triggerPart = [] then componentName else triggerPart)
      in \<lparr>action_type = input, trigger = trg,
          action_description = ''Enter information in the '' @ formatTriggerName trg,
          outcome = ''Updates the input value''\<rparr>)"

definition createNavigationAction :: "string \<Rightarrow> UserAction" where
  "createNavigationAction componentName =
     \<lparr>action_type = navigation, trigger = componentName,
      action_description = ''Click the '' @ formatTriggerName componentName,
      outcome = ''Navigates to another page''\<rparr>"

text \<open>The body of the loop over \<open>component.props\<close>.\<close>

definition propAction :: "string \<Rightarrow> PropDefinition \<Rightarrow> UserAction list" where
  "propAction componentName prop =
     (if startsWith (prop_name prop) ''on'' \<and> length (prop_name prop) > 2
      then (let eventType = toLowerCase (drop 2 (prop_name prop)) in
            if eventType = ''click'' then [createClickAction (prop_name prop) componentName]
            else if eventType = ''submit'' then [createSubmitAction (prop_name prop) componentName]
            else if eventType = ''change'' \<or> eventType = ''input''
            then [createInputAction (prop_name prop) componentName]
            else [])
      else [])"

definition extractUserActions :: "ComponentMetadata \<Rightarrow> UserAction list" where
  "extractUserActions component =
     concat (map (propAction (name component)) (props component))
     @ (if str_includes (toLowerCase (name component)) ''link''
           \<or> str_includes (toLowerCase (name component)) ''nav''
           \<or> list_ex (\<lambda>p. prop_name p = ''to'' \<or> prop_name p = ''href'') (props component)
        then [createNavigationAction (name component)] else [])"


subsection \<open>extractNlpContext\<close>

text \<open>Space, tab, line feed, vertical tab, form feed, carriage return.\<close>

definition isSpace :: "char \<Rightarrow> bool" where
  "isSpace c = (c \<in> set [CHR '' '', CHR 0x09, CHR 0x0A, CHR 0x0B, CHR 0x0C, CHR 0x0D])"

definition trim :: "string \<Rightarrow> string" where
  "trim s = rev (dropWhile isSpace (rev (dropWhile isSpace s)))"

text \<open>\<open>[...new Set(xs)]\<close>: the first occurrence of each element, in order.\<close>

definition uniq :: "string list \<Rightarrow> string list" where
  "uniq xs = foldl (\<lambda>acc x. if x \<in> set acc then acc else acc @ [x]) [] xs"

definition significantJsxTextTags :: "string list" where
  "significantJsxTextTags =
     [''button'', ''p'', ''h1'', ''h2'', ''h3'', ''h4'', ''h5'', ''h6'', ''span'', ''div'',
      ''td'', ''th'', ''li'', ''label'', ''a'']"

fun jsxTextOf :: "node \<Rightarrow> string list" where
  "jsxTextOf (JSXText v) = (if trim v = [] then [] else [trim v])"
| "jsxTextOf (JSXExpressionContainer (StringLiteral v)) = (if trim v = [] then [] else [trim v])"
| "jsxTextOf other = []"

text \<open>The visitors of the second traversal that write to \<open>jsxTextContent\<close>,
  \<open>importSources\<close> and \<open>htmlTagsUsed\<close>. The tree has no comments, so the comment lists
  stay empty.\<close>

fun contextVisitor :: "NlpComponentContext \<Rightarrow> node \<Rightarrow> NlpComponentContext" where
  "contextVisitor ctx (JSXElement (JSXOpeningElement (Some tagName) attributes) kids) =
     (if toLowerCase tagName \<in> set significantJsxTextTags
      then ctx\<lparr>jsxTextContent := jsxTextContent ctx @ concat (map jsxTextOf kids)\<rparr>
      else ctx)"
| "contextVisitor ctx (ImportDeclaration src) = ctx\<lparr>importSources := importSources ctx @ [src]\<rparr>"
| "contextVisitor ctx (JSXOpeningElement (Some tagName) attributes) =
     (if tagName = toLowerCase tagName \<and> (case tagName of [] \<Rightarrow> False | c # cs \<Rightarrow> isLower c)
         \<and> tagName \<notin> set (htmlTagsUsed ctx)
      then ctx\<lparr>htmlTagsUsed := htmlTagsUsed ctx @ [tagName]\<rparr>
      else ctx)"
| "contextVisitor ctx other = ctx"

definition extractNlpContext :: "string \<Rightarrow> node \<Rightarrow> PropDefinition list \<Rightarrow> NlpComponentContext" where
  "extractNlpContext file ast ps =
     (let ctx = foldl contextVisitor
                  \<lparr>ctx_filePath = file, ctx_props = ps, jsxTextContent = [],
                   comments = \<lparr>leading = [], trailing = [], inner = [], jsdoc = []\<rparr>,
                   importSources = [], htmlTagsUsed = []\<rparr>
                  (preorder ast)
      in ctx\<lparr>jsxTextContent := uniq (jsxTextContent ctx),
              importSources := uniq (importSources ctx)\<rparr>)"

subsection \<open>parseComponent\<close>

definition identifyComponentPurpose ::
  "(string \<times> string) list \<Rightarrow> ComponentMetadata \<Rightarrow> PropDefinition list \<Rightarrow> NlpComponentContext
     \<Rightarrow> string" where
  "identifyComponentPurpose customMappings component ps additionalContext =
     generateDescription customMappings (name component) ps additionalContext"

text \<open>\<open>parseComponent\<close> from the parsed tree on.\<close>

definition componentOfAst :: "(string \<times> string) list \<Rightarrow> string \<Rightarrow> node \<Rightarrow> ComponentMetadata" where
  "componentOfAst customMappings file ast =
     (let componentName = extractComponentName file ast;
          ps = extractProps ast;
          actions = extractUserActions (ComponentMetadata componentName file ps [] [] DISPLAY []);
          nlpContext = extractNlpContext file ast ps;
          category = categorizeComponent componentName ps nlpContext;
          purpose = identifyComponentPurpose customMappings
                      (ComponentMetadata componentName file ps [] actions category [])
                      ps nlpContext
      in ComponentMetadata componentName file ps [] actions category purpose)"

text \<open>\<open>parseCode\<close>: the parser (external, \<open>None\<close> when it throws) is called with the
  \<open>jsx\<close> plugin, and the \<open>typescript\<close> plugin for \<open>.ts\<close> and \<open>.tsx\<close> files.\<close>

definition parseCode :: "(string \<Rightarrow> string list \<Rightarrow> node option) \<Rightarrow> string \<Rightarrow> string \<Rightarrow> node option" where
  "parseCode parser code file =
     parser code (''jsx'' # (if extname file = ''.tsx'' \<or> extname file = ''.ts''
                               then [''typescript''] else []))"

text \<open>\<open>parseComponent(filePath)\<close>: \<open>None\<close> when reading or parsing throws.\<close>

definition parseComponent ::
  "(string \<Rightarrow> string list \<Rightarrow> node option) \<Rightarrow> (string \<Rightarrow> string option) \<Rightarrow> (string \<times> string) list
     \<Rightarrow> string \<Rightarrow> ComponentMetadata option" where
  "parseComponent parser readFile customMappings file =
     (case readFile file of
        None \<Rightarrow> None
      | Some fileContent \<Rightarrow>
         (case parseCode parser fileContent file of
            None \<Rightarrow> None
          | Some ast \<Rightarrow> Some (componentOfAst customMappings file ast)))"

section \<open>CacheManager (cache/cache-manager)\<close>

text \<open>
  What \<open>JSON.parse\<close> returns for the text of a cache file, as far as the code looks into
  it: a primitive, an array, or an object with its \<open>sourceFileHash\<close> property
  (\<open>None\<close> when undefined) and its \<open>componentMetadata\<close> property (\<open>None\<close> when
  undefined). A \<open>componentMetadata\<close> is either an object of the shape
  \<open>ComponentMetadata\<close>, which is what the code casts it to, or a value with no string
  \<open>filePath\<close> (\<open>null\<close>, a number, \<open>{}\<close>).
\<close>

datatype meta_value = NoFilePath | Meta ComponentMetadata

datatype json_value =
    JNull | JBool bool | JNum int | JStr string | JArr
  | JObj "json_value option" "meta_value option"

text \<open>The text of a cache file: one that \<open>JSON.parse\<close> rejects, or one that parses.\<close>

datatype cache_file = Unparsable | Json json_value

text \<open>The directory \<open>.userlens_cache/metadata\<close>: file names with their contents, in the
  order \<open>readdir\<close> lists them.\<close>

type_synonym cache_dir = "(string \<times> cache_file) list"

text \<open>The name of the cache file of a source path; \<open>md5\<close> is the digest function.\<close>

definition getCacheFilePath :: "(string \<Rightarrow> string) \<Rightarrow> string \<Rightarrow> string" where
  "getCacheFilePath md5 sourceFilePath = md5 sourceFilePath @ ''.json''"

text \<open>
  \<open>removeCachedComponent\<close>: \<open>fs.unlink\<close> on the cache file of the path. A file that is
  not there is not an error (\<open>ENOENT\<close> is passed over); the removal of a file that is
  there is taken to succeed.
\<close>

definition removeCachedComponent :: "(string \<Rightarrow> string) \<Rightarrow> cache_dir \<Rightarrow> string \<Rightarrow> cache_dir" where
  "removeCachedComponent md5 dir sourceFilePath =
     AList.delete (getCacheFilePath md5 sourceFilePath) dir"

text \<open>
  \<open>cacheComponent\<close>: \<open>writeFile\<close> tells for a cache file whether \<open>fs.writeFile\<close> on it
  succeeds. When it throws, the error is logged and thrown again: \<open>None\<close>. A write that
  fails is taken to leave the directory as it was.
\<close>

definition cacheComponent ::
  "(string \<Rightarrow> string) \<Rightarrow> (string \<Rightarrow> bool) \<Rightarrow> cache_dir \<Rightarrow> string \<Rightarrow> string
     \<Rightarrow> ComponentMetadata \<Rightarrow> cache_dir option" where
  "cacheComponent md5 writeFile dir sourceFilePath sourceFileHash metadata =
     (if writeFile (getCacheFilePath md5 sourceFilePath)
      then Some (AList.update (getCacheFilePath md5 sourceFilePath)
                   (Json (JObj (Some (JStr sourceFileHash)) (Some (Meta metadata)))) dir)
      else None)"

fun truthy :: "json_value \<Rightarrow> bool" where
  "truthy JNull = False"
| "truthy (JBool b) = b"
| "truthy (JNum n) = (n \<noteq> 0)"
| "truthy (JStr s) = (s \<noteq> [])"
| "truthy JArr = True"
| "truthy (JObj h m) = True"

text \<open>The validation \<open>data && typeof data.sourceFileHash === 'string' &&
  data.componentMetadata !== undefined\<close>, returning the two fields when it passes.\<close>

fun validEntry :: "json_value \<Rightarrow> (string \<times> meta_value) option" where
  "validEntry (JObj (Some (JStr h)) (Some m)) = Some (h, m)"
| "validEntry other = None"

text \<open>
  \<open>getCachedComponent\<close>: the result (\<open>None\<close> for \<open>null\<close>) and the directory afterwards.
  A missing file and a file that does not parse both end in the \<open>catch\<close> block, which
  returns \<open>null\<close>; a parsed value that fails the validation is removed.
\<close>

definition getCachedComponent ::
  "(string \<Rightarrow> string) \<Rightarrow> cache_dir \<Rightarrow> string \<Rightarrow> (string \<times> meta_value) option \<times> cache_dir" where
  "getCachedComponent md5 dir sourceFilePath =
     (case map_of dir (getCacheFilePath md5 sourceFilePath) of
        None \<Rightarrow> (None, dir)
      | Some Unparsable \<Rightarrow> (None, dir)
      | Some (Json data) \<Rightarrow>
         (case validEntry data of
            Some entry \<Rightarrow> (Some entry, dir)
          | None \<Rightarrow> (None, removeCachedComponent md5 dir sourceFilePath)))"

definition calculateFileContentHash ::
  "(string \<Rightarrow> string) \<Rightarrow> (string \<Rightarrow> string option) \<Rightarrow> string \<Rightarrow> string option" where
  "calculateFileContentHash md5 readFile absoluteFilePath =
     (case readFile absoluteFilePath of
        None \<Rightarrow> None
      | Some fileContent \<Rightarrow> Some (md5 fileContent))"

fun cachedFilePath :: "string \<times> cache_file \<Rightarrow> string list" where
  "cachedFilePath (file, Json (JObj h (Some (Meta m)))) =
     (if extname file = ''.json'' then [filePath m] else [])"
| "cachedFilePath other = []"

definition getAllCachedFilePaths :: "cache_dir \<Rightarrow> string list" where
  "getAllCachedFilePaths dir = concat (map cachedFilePath dir)"


section \<open>The analyze command (cli/index)\<close>

text \<open>
  What the run takes from outside: the digest function, the source files (\<open>None\<close> when
  \<open>readFile\<close> throws), the analyzer's \<open>parseComponent\<close> (\<open>None\<close> when it throws),
  whether a cache file can be written, the
  project root (the working directory) and \<open>JSON.stringify(_, null, 2)\<close> on the three
  result lists.
\<close>

record env =
  env_md5 :: "string \<Rightarrow> string"
  env_readFile :: "string \<Rightarrow> string option"
  env_analyzer :: "string \<Rightarrow> ComponentMetadata option"
  env_writeFile :: "string \<Rightarrow> bool"
  env_projectRoot :: string
  env_stringifyComponents :: "ComponentMetadata list \<Rightarrow> string"
  env_stringifyPatterns :: "DetectedPattern list \<Rightarrow> string"
  env_stringifyWorkflows :: "Workflow list \<Rightarrow> string"

text \<open>The lines the per-file loop prints.\<close>

datatype log_event =
    CacheHit string
  | CacheStale string
  | CacheMiss string
  | AnalyzedAndCached string string
  | ErrorProcessing string

record loop_state =
  cache :: cache_dir
  components :: "ComponentMetadata list"
  processedRelativeFilePaths :: "string list"
  changedOrNewRelativeFilePaths :: "string list"
  events :: "log_event list"

fun setFilePath :: "string \<Rightarrow> ComponentMetadata \<Rightarrow> ComponentMetadata" where
  "setFilePath file (ComponentMetadata n f ps cs acts cat d) = ComponentMetadata n file ps cs acts cat d"

text \<open>The cache-hit branch: \<open>componentMeta.filePath\<close> throws on a value with no
  \<open>filePath\<close>, which the \<open>catch\<close> of the loop body logs; an absolute \<open>filePath\<close> is
  made relative to the project root.\<close>

definition cacheHit :: "env \<Rightarrow> loop_state \<Rightarrow> string \<Rightarrow> meta_value \<Rightarrow> loop_state" where
  "cacheHit e st relativeFilePath cached =
     (case cached of
        NoFilePath \<Rightarrow>
          st\<lparr>events := events st @ [CacheHit relativeFilePath, ErrorProcessing relativeFilePath]\<rparr>
      | Meta componentMeta \<Rightarrow>
          st\<lparr>components := components st @
                [if isAbsolute (filePath componentMeta)
                 then setFilePath (relative (env_projectRoot e) (env_projectRoot e)
                                     (filePath componentMeta)) componentMeta
                 else componentMeta],
             events := events st @ [CacheHit relativeFilePath]\<rparr>)"

text \<open>The \<open>else\<close> branch: parse, cache, push. When \<open>parseComponent\<close> throws nothing is
  written; when \<open>cacheComponent\<close> throws nothing is pushed.\<close>

definition reanalyze ::
  "env \<Rightarrow> loop_state \<Rightarrow> string \<Rightarrow> string \<Rightarrow> string \<Rightarrow> log_event \<Rightarrow> loop_state" where
  "reanalyze e st absoluteFilePath relativeFilePath currentContentHash line =
     (case env_analyzer e absoluteFilePath of
        None \<Rightarrow> st\<lparr>events := events st @ [line, ErrorProcessing relativeFilePath]\<rparr>
      | Some parsedMetadata \<Rightarrow>
         (let metadataToCache = setFilePath relativeFilePath parsedMetadata in
          case cacheComponent (env_md5 e) (env_writeFile e) (cache st) relativeFilePath
                 currentContentHash metadataToCache of
            None \<Rightarrow> st\<lparr>events := events st @ [line, ErrorProcessing relativeFilePath]\<rparr>
          | Some dir \<Rightarrow>
              st\<lparr>cache := dir,
                 components := components st @ [metadataToCache],
                 changedOrNewRelativeFilePaths :=
                   changedOrNewRelativeFilePaths st @ [relativeFilePath],
                 events := events st @
                    [line, AnalyzedAndCached (name metadataToCache) relativeFilePath]\<rparr>))"

text \<open>The body of \<open>for (const absoluteFilePath of componentFiles)\<close>.\<close>

definition processFile :: "env \<Rightarrow> loop_state \<Rightarrow> string \<Rightarrow> loop_state" where
  "processFile e st absoluteFilePath =
     (let relativeFilePath = relative (env_projectRoot e) (env_projectRoot e) absoluteFilePath;
          st1 = st\<lparr>processedRelativeFilePaths :=
                      processedRelativeFilePaths st @ [relativeFilePath]\<rparr>
      in case calculateFileContentHash (env_md5 e) (env_readFile e) absoluteFilePath of
           None \<Rightarrow> st1\<lparr>events := events st1 @ [ErrorProcessing relativeFilePath]\<rparr>
         | Some currentContentHash \<Rightarrow>
            (case getCachedComponent (env_md5 e) (cache st1) relativeFilePath of
               (cachedData, dir) \<Rightarrow>
                 (case cachedData of
                    None \<Rightarrow>
                      reanalyze e (st1\<lparr>cache := dir\<rparr>) absoluteFilePath relativeFilePath
                        currentContentHash (CacheMiss relativeFilePath)
                  | Some (sourceFileHash, cached) \<Rightarrow>
                      if sourceFileHash = currentContentHash
                      then cacheHit e (st1\<lparr>cache := dir\<rparr>) relativeFilePath cached
                      else reanalyze e (st1\<lparr>cache := dir\<rparr>) absoluteFilePath relativeFilePath
                             currentContentHash (CacheStale relativeFilePath))))"

text \<open>The body of the loop over \<open>initialCachedRelativePaths\<close>.\<close>

definition deleteStep ::
  "(string \<Rightarrow> string) \<Rightarrow> string list \<Rightarrow> cache_dir \<times> string list \<Rightarrow> string
     \<Rightarrow> cache_dir \<times> string list" where
  "deleteStep md5 processed acc cachedPath =
     (if cachedPath \<in> set processed then acc
      else (removeCachedComponent md5 (fst acc) cachedPath, snd acc @ [cachedPath]))"

record Changeset =
  newComponents :: "string list"
  changedComponents :: "string list"
  deletedComponents :: "string list"
  componentsJsonChanged :: bool
  patternsJsonChanged :: bool
  workflowsJsonChanged :: bool

text \<open>The text of a result file: empty, rejected by \<open>JSON.parse\<close>, or the text of a
  value.\<close>

datatype 'a json_file = EmptyText | BadText | TextOf 'a

record outputs =
  componentsJson :: "ComponentMetadata list json_file option"
  patternsJson :: "DetectedPattern list json_file option"
  workflowsJson :: "Workflow list json_file option"
  changesetJson :: "Changeset option"

text \<open>
  One result file: \<open>changed = !old || calculateJsonHash(JSON.parse(old)) !==
  calculateJsonHash(data)\<close>, and the file is written only when \<open>changed\<close>. \<open>None\<close> when
  \<open>JSON.parse\<close> throws.
\<close>

definition saveArtifact ::
  "(string \<Rightarrow> string) \<Rightarrow> ('a \<Rightarrow> string) \<Rightarrow> 'a json_file option \<Rightarrow> 'a
     \<Rightarrow> (bool \<times> 'a json_file option) option" where
  "saveArtifact md5 stringify old new =
     (case old of
        None \<Rightarrow> Some (True, Some (TextOf new))
      | Some EmptyText \<Rightarrow> Some (True, Some (TextOf new))
      | Some BadText \<Rightarrow> None
      | Some (TextOf v) \<Rightarrow>
          (if md5 (stringify v) \<noteq> md5 (stringify new) then Some (True, Some (TextOf new))
           else Some (False, old)))"

record world =
  cache_files :: cache_dir
  output_files :: outputs

datatype analysis_error = ArtifactParseError

text \<open>
  The action of the \<open>analyze\<close> command on the component files found, from the call of
  \<open>getAllCachedFilePaths\<close> on. An exception outside the loop body ends the run with
  \<open>process.exit(1)\<close>: \<open>Inl\<close>, with the files as they are then.
\<close>

definition analyze :: "env \<Rightarrow> world \<Rightarrow> string list \<Rightarrow> analysis_error \<times> world + Changeset \<times> world" where
  "analyze e w componentFiles =
    (let initialCachedRelativePaths = getAllCachedFilePaths (cache_files w);
         st = foldl (processFile e)
                \<lparr>cache = cache_files w, components = [], processedRelativeFilePaths = [],
                 changedOrNewRelativeFilePaths = [], events = []\<rparr> componentFiles;
         del = foldl (deleteStep (env_md5 e) (processedRelativeFilePaths st)) (cache st, [])
                 initialCachedRelativePaths;
         changedComponentsPaths =
           filter (\<lambda>p. p \<in> set initialCachedRelativePaths) (changedOrNewRelativeFilePaths st);
         newComponentsPaths =
           filter (\<lambda>p. p \<notin> set initialCachedRelativePaths) (changedOrNewRelativeFilePaths st);
         out0 = output_files w
     in
      case saveArtifact (env_md5 e) (env_stringifyComponents e) (componentsJson out0)
             (components st) of
        None \<Rightarrow> Inl (ArtifactParseError, \<lparr>cache_files = fst del, output_files = out0\<rparr>)
      | Some (cChanged, cFile) \<Rightarrow>
         (let out1 = out0\<lparr>componentsJson := cFile\<rparr> in
          case saveArtifact (env_md5 e) (env_stringifyPatterns e) (patternsJson out1)
                 (detectPatterns (components st)) of
            None \<Rightarrow> Inl (ArtifactParseError, \<lparr>cache_files = fst del, output_files = out1\<rparr>)
          | Some (pChanged, pFile) \<Rightarrow>
             (let out2 = out1\<lparr>patternsJson := pFile\<rparr> in
              case saveArtifact (env_md5 e) (env_stringifyWorkflows e) (workflowsJson out2)
                     (detectWorkflows (components st)) of
                None \<Rightarrow> Inl (ArtifactParseError, \<lparr>cache_files = fst del, output_files = out2\<rparr>)
              | Some (wChanged, wFile) \<Rightarrow>
                 (let changeset =
                        \<lparr>newComponents = newComponentsPaths,
                         changedComponents = changedComponentsPaths,
                         deletedComponents = snd del,
                         componentsJsonChanged = cChanged,
                         patternsJsonChanged = pChanged,
                         workflowsJsonChanged = wChanged\<rparr>
                  in Inr (changeset,
                          \<lparr>cache_files = fst del,
                           output_files = out2\<lparr>workflowsJson := wFile,
                                                changesetJson := Some changeset\<rparr>\<rparr>)))))"

section \<open>The classifier as an ordered rule table\<close>

text \<open>
  The classifier as the specification words it: an ordered list of rules, each with a
  keyword set for the component name and one for the prop names, the first matching rule
  giving the category and \<open>LAYOUT\<close> the default. To be compared with
  \<^const>\<open>categorizeComponent\<close>.
\<close>

record category_rule =
  rule_category :: ComponentCategory
  name_keywords :: "string list"
  prop_keywords :: "string list"

definition spec_categoryRules :: "category_rule list" where
  "spec_categoryRules =
    [\<lparr>rule_category = FORM, name_keywords = [''form'', ''input'', ''login'', ''register''],
      prop_keywords = [''onsubmit'', ''form'']\<rparr>,
     \<lparr>rule_category = NAVIGATION, name_keywords = [''nav'', ''menu'', ''link'', ''route''],
      prop_keywords = [''href'', ''to'', ''path'']\<rparr>,
     \<lparr>rule_category = INTERACTION, name_keywords = [''button'', ''click'', ''action''],
      prop_keywords = [''onclick'', ''onpress'']\<rparr>,
     \<lparr>rule_category = DISPLAY,
      name_keywords = [''view'', ''display'', ''show'', ''card'', ''list'', ''table''],
      prop_keywords = []\<rparr>]"

fun spec_firstMatch :: "category_rule list \<Rightarrow> string \<Rightarrow> string list \<Rightarrow> ComponentCategory" where
  "spec_firstMatch [] nm propNames = LAYOUT"
| "spec_firstMatch (r # rs) nm propNames =
     (if list_ex (\<lambda>k. str_includes nm k) (name_keywords r)
         \<or> list_ex (\<lambda>p. list_ex (\<lambda>k. str_includes p k) (prop_keywords r)) propNames
      then rule_category r
      else spec_firstMatch rs nm propNames)"

section \<open>Example inputs\<close>

definition toast :: ComponentMetadata where
  "toast = ComponentMetadata ''Toast'' ''src/components/Toast.tsx'' [] [] [] LAYOUT ''Toast''"

definition navbar :: ComponentMetadata where
  "navbar =
     ComponentMetadata ''Navbar'' ''src/components/Navbar.tsx'' [] [] [] NAVIGATION ''Navbar''"


section \<open>Predicates and accessors used in the statements\<close>

text \<open>Props as the destructuring step adds them: typed \<open>any\<close>, not required, with
  pairwise different names that do not occur in \<open>ps\<close>.\<close>

definition freshAnyProps :: "PropDefinition list \<Rightarrow> PropDefinition list \<Rightarrow> bool" where
  "freshAnyProps extra ps =
     (list_all (\<lambda>p. prop_type p = ''any'' \<and> \<not> required p) extra
      \<and> distinct (map prop_name extra)
      \<and> set (map prop_name extra) \<inter> set (map prop_name ps) = {})"

text \<open>
  The names the parameter traversal of \<open>extractProps\<close> meets, in source order: for each
  function declaration and arrow function, the identifier keys of the object pattern that
  is its first parameter. \<open>fillNames\<close> is the push of
  \<open>extractFunctionComponentProps\<close>, name by name: a name that some prop of the list
  already has is passed over, any other is appended with type \<open>any\<close>, not required.
\<close>

fun propertyKey :: "node \<Rightarrow> string list" where
  "propertyKey (ObjectProperty (Identifier propName) v) = [propName]"
| "propertyKey other = []"

fun firstParamNames :: "node list \<Rightarrow> string list" where
  "firstParamNames (ObjectPattern properties # rest) = concat (map propertyKey properties)"
| "firstParamNames params = []"

fun functionParamNames :: "node \<Rightarrow> string list" where
  "functionParamNames (FunctionDeclaration i params body) = firstParamNames params"
| "functionParamNames (ArrowFunctionExpression params body) = firstParamNames params"
| "functionParamNames other = []"

definition destructuredNames :: "node \<Rightarrow> string list" where
  "destructuredNames ast = concat (map functionParamNames (preorder ast))"

fun fillNames :: "PropDefinition list \<Rightarrow> string list \<Rightarrow> PropDefinition list" where
  "fillNames ps [] = ps"
| "fillNames ps (n # ns) =
     fillNames (if n \<in> set (map prop_name ps) then ps
                else ps @ [\<lparr>prop_name = n, prop_type = ''any'', required = False\<rparr>]) ns"

text \<open>A path segment: not empty and without a separator.\<close>

definition plainSegment :: "string \<Rightarrow> bool" where
  "plainSegment seg = (seg \<noteq> [] \<and> CHR ''/'' \<notin> set seg)"

text \<open>The changeset of a run that completed, and the files a run leaves.\<close>

definition changesetOf :: "analysis_error \<times> world + Changeset \<times> world \<Rightarrow> Changeset option" where
  "changesetOf r = (case r of Inl err \<Rightarrow> None | Inr done \<Rightarrow> Some (fst done))"

definition worldOf :: "analysis_error \<times> world + Changeset \<times> world \<Rightarrow> world" where
  "worldOf r = (case r of Inl err \<Rightarrow> snd err | Inr done \<Rightarrow> snd done)"

section \<open>Example files and caches\<close>

definition loginFormPath :: string where
  "loginFormPath = ''/proj/src/components/LoginForm.jsx''"

text \<open>
  \<open>const LoginForm = ({ onLogin, redirectUrl }) => { return (<form
  onSubmit={handleSubmit}><button>Sign In</button></form>); }; export default
  LoginForm;\<close>
\<close>

definition loginFormAst :: node where
  "loginFormAst = Program
     [ImportDeclaration ''react'',
      Other ''VariableDeclaration''
        [Other ''VariableDeclarator''
           [Identifier ''LoginForm'',
            ArrowFunctionExpression
              [ObjectPattern
                 [ObjectProperty (Identifier ''onLogin'') (Identifier ''onLogin''),
                  ObjectProperty (Identifier ''redirectUrl'') (Identifier ''redirectUrl'')]]
              (Other ''BlockStatement''
                 [Other ''ReturnStatement''
                    [JSXElement
                       (JSXOpeningElement (Some ''form'')
                          [Other ''JSXAttribute''
                             [Other ''JSXIdentifier'' [],
                              JSXExpressionContainer (Identifier ''handleSubmit'')]])
                       [JSXElement (JSXOpeningElement (Some ''button'') [])
                          [JSXText ''Sign In'']]]])]],
      ExportDefaultDeclaration (Identifier ''LoginForm'')]"

text \<open>
  \<open>export default function LoginForm() {} export function validateCredentials(values)
  {}\<close>
\<close>

definition twoExportsAst :: node where
  "twoExportsAst = Program
     [ExportDefaultDeclaration
        (FunctionDeclaration (Some ''LoginForm'') [] (Other ''BlockStatement'' [])),
      ExportNamedDeclaration
        (Some (FunctionDeclaration (Some ''validateCredentials'') [Identifier ''values'']
                 (Other ''BlockStatement'' [])))]"

text \<open>
  \<open>interface LabelProps { label: string } function Label({ label, size, color }) {}
  Label.propTypes = { size: PropTypes.number, label: PropTypes.string.isRequired }\<close>
\<close>

definition labelAst :: node where
  "labelAst = Program
     [TSInterfaceDeclaration ''LabelProps''
        [TSPropertySignature (Identifier ''label'') False (Some TSStringKeyword)],
      FunctionDeclaration (Some ''Label'')
        [ObjectPattern [ObjectProperty (Identifier ''label'') (Identifier ''label''),
                        ObjectProperty (Identifier ''size'') (Identifier ''size''),
                        ObjectProperty (Identifier ''color'') (Identifier ''color'')]]
        (Other ''BlockStatement'' []),
      Other ''ExpressionStatement''
        [AssignmentExpression
           (MemberExpression (Identifier ''Label'') (Identifier ''propTypes''))
           (ObjectExpression
              [ObjectProperty (Identifier ''size'')
                 (MemberExpression (Identifier ''PropTypes'') (Identifier ''number'')),
               ObjectProperty (Identifier ''label'')
                 (MemberExpression
                    (MemberExpression (Identifier ''PropTypes'') (Identifier ''string''))
                    (Identifier ''isRequired''))])]]"

definition plainDigest :: "string \<Rightarrow> string" where
  "plainDigest s = s"

definition exampleEnv :: "(string \<times> string) list \<Rightarrow> (string \<times> ComponentMetadata) list \<Rightarrow> env" where
  "exampleEnv sources parses =
     \<lparr>env_md5 = plainDigest,
      env_readFile = map_of sources,
      env_analyzer = map_of parses,
      env_writeFile = (\<lambda>cacheFile. True),
      env_projectRoot = ''/proj'',
      env_stringifyComponents = (\<lambda>cs. joinWith '','' (map name cs)),
      env_stringifyPatterns = (\<lambda>ds. joinWith '','' (map pattern_name ds)),
      env_stringifyWorkflows = (\<lambda>ws. joinWith '','' (map workflow_name ws))\<rparr>"

definition navigationPath :: string where
  "navigationPath = ''/proj/src/components/Navigation.tsx''"

definition buttonPath :: string where
  "buttonPath = ''/proj/src/components/Button.tsx''"

definition navigationMeta :: "string \<Rightarrow> ComponentMetadata" where
  "navigationMeta file =
     ComponentMetadata ''Navigation'' file [] [] []
       NAVIGATION ''Navigate through the application''"

definition buttonMeta :: "string \<Rightarrow> ComponentMetadata" where
  "buttonMeta file =
     ComponentMetadata ''Button'' file
       [\<lparr>prop_name = ''onClick'', prop_type = ''function'', required = True\<rparr>] []
       [\<lparr>action_type = click, trigger = ''Button'', action_description = ''Click the button'',
         outcome = ''Performs the button action''\<rparr>]
       INTERACTION ''Perform an action''"

definition cacheEntry :: "string \<Rightarrow> ComponentMetadata \<Rightarrow> cache_file" where
  "cacheEntry h m = Json (JObj (Some (JStr h)) (Some (Meta m)))"

definition noOutputs :: outputs where
  "noOutputs = \<lparr>componentsJson = None, patternsJson = None, workflowsJson = None,
                changesetJson = None\<rparr>"

definition loopStart :: "cache_dir \<Rightarrow> loop_state" where
  "loopStart dir =
     \<lparr>cache = dir, components = [], processedRelativeFilePaths = [],
      changedOrNewRelativeFilePaths = [], events = []\<rparr>"

text \<open>A cache written under the relative path with the absolute path inside, the
  content of the source file unchanged since.\<close>

definition legacyCache :: cache_dir where
  "legacyCache =
     [(''src/components/Navigation.tsx.json'', cacheEntry ''v1'' (navigationMeta navigationPath))]"

text \<open>A cache after a run over \<open>Navigation.tsx\<close> and \<open>Button.tsx\<close>.\<close>

definition twoFileCache :: cache_dir where
  "twoFileCache =
     [(''src/components/Navigation.tsx.json'',
        cacheEntry ''v1'' (navigationMeta ''src/components/Navigation.tsx'')),
      (''src/components/Button.tsx.json'',
        cacheEntry ''v2'' (buttonMeta ''src/components/Button.tsx''))]"

section \<open>The loop body as a function of one cache file\<close>

text \<open>The name of the cache file that the loop body reads and writes for a source
  file.\<close>

definition keyOf :: "env \<Rightarrow> string \<Rightarrow> string" where
  "keyOf e file =
     getCacheFilePath (env_md5 e) (relative (env_projectRoot e) (env_projectRoot e) file)"

text \<open>What the \<open>else\<close> branch of the loop body caches and pushes for a file: the
  parsed metadata, when parsing and the write of the cache file both succeed.\<close>

definition extracted :: "env \<Rightarrow> string \<Rightarrow> ComponentMetadata option" where
  "extracted e file =
     (case env_analyzer e file of
        None \<Rightarrow> None
      | Some parsed \<Rightarrow> if env_writeFile e (keyOf e file) then Some parsed else None)"

text \<open>
  The loop body seen from the one cache file it touches: from the content of that file
  before (\<open>None\<close> when there is none), the content after, the components pushed and the
  paths recorded as changed or new.
\<close>

definition stepOutcome ::
  "env \<Rightarrow> string \<Rightarrow> cache_file option
     \<Rightarrow> cache_file option \<times> ComponentMetadata list \<times> string list" where
  "stepOutcome e file before =
     (let rel = relative (env_projectRoot e) (env_projectRoot e) file;
          looked = (case before of
                      Some (Json data) \<Rightarrow> (case validEntry data of None \<Rightarrow> None | Some v \<Rightarrow> before)
                    | other \<Rightarrow> other);
          cached = (case before of Some (Json data) \<Rightarrow> validEntry data | other \<Rightarrow> None)
      in case env_readFile e file of
           None \<Rightarrow> (before, [], [])
         | Some content \<Rightarrow>
            (let reanalyzed =
                   (case extracted e file of
                      None \<Rightarrow> (looked, [], [])
                    | Some parsed \<Rightarrow>
                        (Some (Json (JObj (Some (JStr (env_md5 e content)))
                                 (Some (Meta (setFilePath rel parsed))))),
                         [setFilePath rel parsed], [rel]))
             in case cached of
                  None \<Rightarrow> reanalyzed
                | Some (h, NoFilePath) \<Rightarrow>
                    if h = env_md5 e content then (before, [], []) else reanalyzed
                | Some (h, Meta m) \<Rightarrow>
                    if h = env_md5 e content
                    then (before,
                          [if isAbsolute (filePath m)
                           then setFilePath (relative (env_projectRoot e) (env_projectRoot e)
                                  (filePath m)) m
                           else m], [])
                    else reanalyzed))"

text \<open>A cache directory in the current layout: no file name twice, and every path that
  \<open>getAllCachedFilePaths\<close> lists is stored in the cache file of that path.\<close>

definition keyedCache :: "(string \<Rightarrow> string) \<Rightarrow> cache_dir \<Rightarrow> bool" where
  "keyedCache md5 dir =
     (distinct (map fst dir)
      \<and> list_all (\<lambda>entry. list_all (\<lambda>p. fst entry = getCacheFilePath md5 p) (cachedFilePath entry))
           dir)"

definition emptyChangeset :: Changeset where
  "emptyChangeset =
     \<lparr>newComponents = [], changedComponents = [], deletedComponents = [],
      componentsJsonChanged = False, patternsJsonChanged = False,
      workflowsJsonChanged = False\<rparr>"

section \<open>Properties of the classifier\<close>

lemma toLowerChar_idem: "toLowerChar (toLowerChar c) = toLowerChar c"
  unfolding toLowerChar_def upperLetters_def lowerLetters_def
  by (simp split: if_splits)

lemma toLowerCase_idem: "toLowerCase (toLowerCase s) = toLowerCase s"
  by (simp add: toLowerCase_def toLowerChar_idem)

text \<open>
  Claim C6. For every component name and prop list the classifier returns what the first
  matching rule of the ordered table FORM, NAVIGATION, INTERACTION, DISPLAY gives, and
  LAYOUT when none matches; the tests are substring tests on the lower-cased name and
  the lower-cased prop names, so the case of the name does not matter; the result is one
  of the five categories and its string value is not empty.
\<close>

theorem categorize_first_match:
  "categorizeComponent n ps ctx =
     spec_firstMatch spec_categoryRules (toLowerCase n) (map (\<lambda>p. toLowerCase (prop_name p)) ps)
   \<and> categorizeComponent (toLowerCase n) ps ctx = categorizeComponent n ps ctx
   \<and> categorizeComponent n ps ctx \<in> {FORM, NAVIGATION, INTERACTION, DISPLAY, LAYOUT}
   \<and> categoryValue (categorizeComponent n ps ctx) \<noteq> []"
proof -
  have a: "categorizeComponent n ps ctx =
     spec_firstMatch spec_categoryRules (toLowerCase n) (map (\<lambda>p. toLowerCase (prop_name p)) ps)"
    by (auto simp add: categorizeComponent_def spec_categoryRules_def Let_def list_ex_iff)
  have b: "categorizeComponent (toLowerCase n) ps ctx = categorizeComponent n ps ctx"
    by (simp add: categorizeComponent_def toLowerCase_idem)
  have c: "categorizeComponent n ps ctx \<in> {FORM, NAVIGATION, INTERACTION, DISPLAY, LAYOUT}"
    by (cases "categorizeComponent n ps ctx") simp_all
  have d: "categoryValue (categorizeComponent n ps ctx) \<noteq> []"
    by (cases "categorizeComponent n ps ctx") simp_all
  from a b c d show ?thesis by blast
qed

text \<open>
  Claim C10. The category depends on the component name and the prop names only: two
  calls with the same name and prop lists of the same names return the same category,
  whatever the prop types, the required flags and the two additional contexts are.
\<close>

theorem categorize_ignores_context:
  assumes "map prop_name ps = map prop_name ps'"
  shows "categorizeComponent n ps c = categorizeComponent n ps' c'"
proof -
  have "map (\<lambda>p. toLowerCase (prop_name p)) ps = map toLowerCase (map prop_name ps)"
    by simp
  also have "\<dots> = map toLowerCase (map prop_name ps')"
    using assms by simp
  also have "\<dots> = map (\<lambda>p. toLowerCase (prop_name p)) ps'"
    by simp
  finally show ?thesis
    by (simp add: categorizeComponent_def)
qed

theorem categorize_ignores_context_witness:
  "map prop_name [\<lparr>prop_name = ''onClick'', prop_type = ''function'', required = True\<rparr>]
     = map prop_name [\<lparr>prop_name = ''onClick'', prop_type = ''any'', required = False\<rparr>]
   \<and> categorizeComponent ''Avatar''
        [\<lparr>prop_name = ''onClick'', prop_type = ''function'', required = True\<rparr>]
        \<lparr>ctx_filePath = ''a.tsx'', ctx_props = [], jsxTextContent = [''Submit''],
         comments = \<lparr>leading = [''a form''], trailing = [], inner = [], jsdoc = []\<rparr>,
         importSources = [''react-router''], htmlTagsUsed = [''form'', ''nav'']\<rparr>
     = categorizeComponent ''Avatar''
        [\<lparr>prop_name = ''onClick'', prop_type = ''any'', required = False\<rparr>]
        \<lparr>ctx_filePath = ''b.tsx'', ctx_props = [], jsxTextContent = [],
         comments = \<lparr>leading = [], trailing = [], inner = [], jsdoc = []\<rparr>,
         importSources = [], htmlTagsUsed = []\<rparr>"
proof -
  have h: "map prop_name [\<lparr>prop_name = ''onClick'', prop_type = ''function'', required = True\<rparr>]
     = map prop_name [\<lparr>prop_name = ''onClick'', prop_type = ''any'', required = False\<rparr>]"
    by simp
  from h categorize_ignores_context[OF h] show ?thesis
    by blast
qed

section \<open>Properties of pattern detection\<close>

lemma patterns_nonempty:
  "(n, pat) \<in> set patterns \<Longrightarrow> ui_components pat \<noteq> [] \<and> ui_actions pat \<noteq> []"
  by (auto simp add: patterns_def)

lemma calculateConfidence_pos:
  assumes "mc \<noteq> []" "ui_components pat \<noteq> []"
  shows "0 < calculateConfidence mc ma pat"
proof -
  have "0 < (of_nat (length mc) :: rat) / of_nat (length (ui_components pat))"
    using assms by simp
  moreover have "0 \<le> (if length ma > 0
      then (of_nat (length ma) :: rat) / of_nat (length (ui_actions pat)) else 0)"
    by simp
  ultimately show ?thesis
    unfolding calculateConfidence_def Let_def
    by (simp add: add_pos_nonneg)
qed

lemma calculateConfidence_le_1:
  assumes "length mc \<le> length (ui_components pat)" "length ma \<le> length (ui_actions pat)"
    "ui_components pat \<noteq> []"
  shows "calculateConfidence mc ma pat \<le> 1"
proof -
  have a: "(of_nat (length mc) :: rat) / of_nat (length (ui_components pat)) \<le> 1"
    using assms by (simp add: divide_le_eq_1)
  have b: "(if length ma > 0
      then (of_nat (length ma) :: rat) / of_nat (length (ui_actions pat)) else 0) \<le> 1"
    using assms by (simp add: divide_le_eq_1)
  have weighted: "x \<le> 1 \<Longrightarrow> y \<le> 1 \<Longrightarrow> x * (7 / 10) + y * (3 / 10) \<le> (1::rat)" for x y
    by linarith
  show ?thesis
    unfolding calculateConfidence_def Let_def by (rule weighted[OF a b])
qed

lemma detectPattern_member:
  assumes "d \<in> set (detectPattern cs entry)"
  shows "pattern_name d = fst entry
       \<and> pattern_components d \<noteq> []
       \<and> confidence d = calculateConfidence (pattern_components d) (pattern_actions d) (snd entry)"
  using assms by (auto simp add: detectPattern_def Let_def split: if_splits)

text \<open>
  Claim C1, as amended. Every pattern \<open>detectPatterns\<close> returns comes from an entry of
  the pattern table, its confidence is the weighted sum of the two ratios for that entry
  and is greater than 0; it is at most 1 when the matching components are no more than
  the entry's keywords and the matching actions no more than its action phrases.
  (The ratios divide a number of components by a number of keywords, so nothing bounds
  them by 1 in general: see the counterexample.)
\<close>

theorem detectPatterns_confidence:
  assumes "d \<in> set (detectPatterns cs)"
  shows "\<exists>pat. (pattern_name d, pat) \<in> set patterns
           \<and> confidence d = calculateConfidence (pattern_components d) (pattern_actions d) pat
           \<and> 0 < confidence d
           \<and> (length (pattern_components d) \<le> length (ui_components pat)
               \<and> length (pattern_actions d) \<le> length (ui_actions pat) \<longrightarrow> confidence d \<le> 1)"
proof -
  from assms obtain entry where e: "entry \<in> set patterns"
    and m: "d \<in> set (detectPattern cs entry)"
    by (auto simp add: detectPatterns_def)
  obtain n pat where np: "entry = (n, pat)"
    by (cases entry)
  from detectPattern_member[OF m] np
  have nm: "pattern_name d = n" and ne: "pattern_components d \<noteq> []"
    and cf: "confidence d = calculateConfidence (pattern_components d) (pattern_actions d) pat"
    by simp_all
  from e np have mem: "(pattern_name d, pat) \<in> set patterns"
    using nm by simp
  from patterns_nonempty[OF mem] have k: "ui_components pat \<noteq> []"
    by simp
  have pos: "0 < confidence d"
    using cf calculateConfidence_pos[OF ne k] by simp
  have le: "length (pattern_components d) \<le> length (ui_components pat)
               \<and> length (pattern_actions d) \<le> length (ui_actions pat) \<longrightarrow> confidence d \<le> 1"
    using cf calculateConfidence_le_1 k by simp
  from mem cf pos le show ?thesis
    by blast
qed

lemma navbar_detected:
  "detectPatterns [navbar] =
     [\<lparr>pattern_name = ''navigation'', pattern_description = ''Navigation through the application'',
       userGoal = ''Move between different sections'', pattern_components = [navbar],
       pattern_actions = [], confidence = 1 / 10\<rparr>]"
  by code_simp

theorem detectPatterns_confidence_witness:
  "hd (detectPatterns [navbar]) \<in> set (detectPatterns [navbar])
   \<and> 0 < confidence (hd (detectPatterns [navbar]))
   \<and> confidence (hd (detectPatterns [navbar])) \<le> 1"
proof -
  let ?d = "hd (detectPatterns [navbar])"
  have mem: "?d \<in> set (detectPatterns [navbar])"
    by (simp add: navbar_detected)
  from detectPatterns_confidence[OF mem] obtain pat where
    p: "(pattern_name ?d, pat) \<in> set patterns" and pos: "0 < confidence ?d"
    and le: "length (pattern_components ?d) \<le> length (ui_components pat)
               \<and> length (pattern_actions ?d) \<le> length (ui_actions pat) \<longrightarrow> confidence ?d \<le> 1"
    by blast
  from p have "pat = snd (patterns ! 4)"
    by (auto simp add: navbar_detected patterns_def)
  then have "length (pattern_components ?d) \<le> length (ui_components pat)
               \<and> length (pattern_actions ?d) \<le> length (ui_actions pat)"
    by (simp add: navbar_detected patterns_def)
  with le have "confidence ?d \<le> 1"
    by blast
  with mem pos show ?thesis
    by blast
qed

text \<open>
  Eight components named \<open>Toast\<close> match the four keywords of the \<open>notification\<close>
  pattern: the component ratio is 8/4 and the confidence 7/5.
\<close>

theorem detectPatterns_confidence_counterexample:
  "detectPatterns (replicate 8 toast) \<noteq> []
   \<and> \<not> confidence (hd (detectPatterns (replicate 8 toast))) \<le> 1"
  by code_simp

section \<open>Properties of the extractor\<close>

text \<open>
  Claim C7. The component name is meant to come from the default export first, then
  from a named export of a function or class, then from the file name. In
  \<open>extractComponentName\<close> both export visitors assign the same variable during one
  traversal, so the export that comes last in the file wins: for a file whose default
  export is the function \<open>LoginForm\<close>, followed by the named export of the function
  \<open>validateCredentials\<close>, the name is \<open>validateCredentials\<close>.
\<close>

theorem extractComponentName_last_export_wins:
  "extractComponentName loginFormPath twoExportsAst = ''validateCredentials''"
  by code_simp

text \<open>
  Claim C5, as amended. For the file of the scenario (default export \<open>LoginForm\<close>, props
  \<open>onLogin\<close> and \<open>redirectUrl\<close> destructured from the first parameter, a \<open>form\<close> tag and a
  \<open>button\<close> with the text \<open>Sign In\<close>) the extractor yields the name \<open>LoginForm\<close>, the two
  props with type \<open>any\<close> and not required, no user action, the category FORM and the
  description \<open>Sign in to your account\<close>, which contains \<open>Sign in\<close>.
\<close>

theorem loginForm_scenario:
  "componentOfAst [] loginFormPath loginFormAst =
     ComponentMetadata ''LoginForm'' loginFormPath
       [\<lparr>prop_name = ''onLogin'', prop_type = ''any'', required = False\<rparr>,
        \<lparr>prop_name = ''redirectUrl'', prop_type = ''any'', required = False\<rparr>]
       [] [] FORM ''Sign in to your account''
   \<and> str_includes (description (componentOfAst [] loginFormPath loginFormAst)) ''Sign in''"
  by code_simp

text \<open>
  User actions come from the props alone: \<open>onLogin\<close> has the suffix \<open>login\<close>, which is
  none of \<open>click\<close>, \<open>submit\<close>, \<open>change\<close>, \<open>input\<close>, and the \<open>onSubmit\<close> attribute of the
  \<open>form\<close> tag is not a prop. There is no submit action.
\<close>

theorem loginForm_scenario_counterexample:
  "submit \<notin> set (map action_type (userActions (componentOfAst [] loginFormPath loginFormAst)))"
  by code_simp

lemma freshAnyProps_Nil: "freshAnyProps [] ps"
  by (simp add: freshAnyProps_def)

lemma freshAnyProps_append:
  assumes "freshAnyProps e1 ps" "freshAnyProps e2 (ps @ e1)"
  shows "freshAnyProps (e1 @ e2) ps"
  using assms by (auto simp add: freshAnyProps_def)

lemma foldl_fills:
  assumes step: "\<And>ps n. \<exists>extra. f ps n = ps @ extra \<and> freshAnyProps extra ps"
  shows "\<exists>extra. foldl f ps ns = ps @ extra \<and> freshAnyProps extra ps"
proof (induction ns arbitrary: ps)
  case Nil
  show ?case
    by (simp add: freshAnyProps_Nil)
next
  case (Cons n ns)
  from step obtain e1 where e1: "f ps n = ps @ e1" "freshAnyProps e1 ps"
    by blast
  from Cons.IH[of "f ps n"] obtain e2 where
    e2: "foldl f (f ps n) ns = f ps n @ e2" "freshAnyProps e2 (f ps n)"
    by blast
  have "foldl f ps (n # ns) = ps @ (e1 @ e2)"
    using e1 e2 by simp
  moreover have "freshAnyProps (e1 @ e2) ps"
    using e1 e2 by (simp add: freshAnyProps_append)
  ultimately show ?case
    by blast
qed

lemma destructuredProperty_fills:
  "\<exists>extra. destructuredProperty ps n = ps @ extra \<and> freshAnyProps extra ps"
proof (cases "\<exists>propName v. n = ObjectProperty (Identifier propName) v")
  case True
  then obtain propName v where n: "n = ObjectProperty (Identifier propName) v"
    by blast
  show ?thesis
  proof (cases "list_ex (\<lambda>p. prop_name p = propName) ps")
    case True
    then show ?thesis
      using n by (simp add: freshAnyProps_Nil)
  next
    case False
    then have "destructuredProperty ps n
        = ps @ [\<lparr>prop_name = propName, prop_type = ''any'', required = False\<rparr>]"
      using n by simp
    moreover have
      "freshAnyProps [\<lparr>prop_name = propName, prop_type = ''any'', required = False\<rparr>] ps"
      using False by (auto simp add: freshAnyProps_def list_ex_iff)
    ultimately show ?thesis
      by blast
  qed
next
  case False
  then have "destructuredProperty ps n = ps"
    by (cases "(ps, n)" rule: destructuredProperty.cases) auto
  then show ?thesis
    by (simp add: freshAnyProps_Nil)
qed

lemma extractFunctionComponentProps_fills:
  "\<exists>extra. extractFunctionComponentProps params ps = ps @ extra \<and> freshAnyProps extra ps"
proof (cases "\<exists>properties rest. params = ObjectPattern properties # rest")
  case True
  then obtain properties rest where "params = ObjectPattern properties # rest"
    by blast
  then show ?thesis
    using foldl_fills[of destructuredProperty ps properties, OF destructuredProperty_fills]
    by simp
next
  case False
  then have "extractFunctionComponentProps params ps = ps"
    by (cases "(params, ps)" rule: extractFunctionComponentProps.cases) auto
  then show ?thesis
    by (simp add: freshAnyProps_Nil)
qed

lemma paramsVisitor_fills:
  "\<exists>extra. paramsVisitor ps n = ps @ extra \<and> freshAnyProps extra ps"
  by (cases "(ps, n)" rule: paramsVisitor.cases)
     (simp_all add: freshAnyProps_Nil extractFunctionComponentProps_fills)

lemma propTypesProperty_distinct:
  "distinct (map fst al) \<Longrightarrow> distinct (map fst (propTypesProperty al n))"
  by (cases "(al, n)" rule: propTypesProperty.cases) (simp_all add: distinct_update)

lemma foldl_propTypesProperty_distinct:
  "distinct (map fst al) \<Longrightarrow> distinct (map fst (foldl propTypesProperty al ns))"
  by (induction ns arbitrary: al) (simp_all add: propTypesProperty_distinct)

lemma propTypesVisitor_distinct:
  "distinct (map fst al) \<Longrightarrow> distinct (map fst (propTypesVisitor al n))"
  by (cases "(al, n)" rule: propTypesVisitor.cases)
     (simp_all add: foldl_propTypesProperty_distinct)

lemma foldl_propTypesVisitor_distinct:
  "distinct (map fst al) \<Longrightarrow> distinct (map fst (foldl propTypesVisitor al ns))"
  by (induction ns arbitrary: al) (simp_all add: propTypesVisitor_distinct)

lemma propTypesProps_distinct: "distinct (map prop_name (propTypesProps ast))"
proof -
  have "map prop_name (propTypesProps ast) = map fst (foldl propTypesVisitor [] (preorder ast))"
    by (simp add: propTypesProps_def split_def comp_def)
  then show ?thesis
    using foldl_propTypesVisitor_distinct[of "[]" "preorder ast"] by simp
qed

text \<open>
  The shape of the result of \<open>extractProps\<close>: the members of the interface declarations
  whose name contains \<open>Props\<close>; then the entries of the \<open>propTypes\<close> objects, one for
  each name; then props taken from the destructuring pattern of a first parameter, which
  all have type \<open>any\<close> and \<open>required = false\<close>, pairwise different names, and no name
  that an earlier prop has.
\<close>

lemma extractProps_shape:
  "\<exists>extra. extractProps ast = interfaceProps ast @ propTypesProps ast @ extra
     \<and> list_all (\<lambda>p. prop_type p = ''any'' \<and> \<not> required p) extra
     \<and> distinct (map prop_name extra)
     \<and> set (map prop_name extra)
         \<inter> set (map prop_name (interfaceProps ast @ propTypesProps ast)) = {}
     \<and> distinct (map prop_name (propTypesProps ast))"
proof -
  from foldl_fills[of paramsVisitor "interfaceProps ast @ propTypesProps ast" "preorder ast",
      OF paramsVisitor_fills]
  obtain extra where
    "foldl paramsVisitor (interfaceProps ast @ propTypesProps ast) (preorder ast)
       = (interfaceProps ast @ propTypesProps ast) @ extra"
    and "freshAnyProps extra (interfaceProps ast @ propTypesProps ast)"
    by blast
  then show ?thesis
    using propTypesProps_distinct[of ast]
    unfolding extractProps_def freshAnyProps_def by auto
qed

text \<open>
  The last part is determined by the destructured names: the result is the interface
  props and the \<open>propTypes\<close> props, filled name by name with the destructured names of
  the file; its names are those of the first two parts followed by the first
  occurrences of the destructured names that none of them has.
\<close>

lemma fillNames_append: "fillNames ps (xs @ ys) = fillNames (fillNames ps xs) ys"
  by (induction xs arbitrary: ps) simp_all

lemma destructuredProperty_fillNames:
  "destructuredProperty ps n = fillNames ps (propertyKey n)"
  by (cases "(ps, n)" rule: destructuredProperty.cases) (auto simp add: list_ex_iff)

lemma foldl_destructuredProperty_fillNames:
  "foldl destructuredProperty ps properties = fillNames ps (concat (map propertyKey properties))"
  by (induction properties arbitrary: ps)
     (simp_all add: destructuredProperty_fillNames fillNames_append)

lemma extractFunctionComponentProps_fillNames:
  "extractFunctionComponentProps params ps = fillNames ps (firstParamNames params)"
  by (cases "(params, ps)" rule: extractFunctionComponentProps.cases)
     (simp_all add: foldl_destructuredProperty_fillNames)

lemma paramsVisitor_fillNames:
  "paramsVisitor ps n = fillNames ps (functionParamNames n)"
  by (cases "(ps, n)" rule: paramsVisitor.cases)
     (auto simp add: extractFunctionComponentProps_fillNames)

lemma foldl_paramsVisitor_fillNames:
  "foldl paramsVisitor ps ns = fillNames ps (concat (map functionParamNames ns))"
  by (induction ns arbitrary: ps) (simp_all add: paramsVisitor_fillNames fillNames_append)

lemma extractProps_fill:
  "extractProps ast
     = fillNames (interfaceProps ast @ propTypesProps ast) (destructuredNames ast)"
  by (simp add: extractProps_def destructuredNames_def foldl_paramsVisitor_fillNames)

lemma remdups_snoc: "remdups (ys @ [n]) = remdups (filter (\<lambda>m. m \<noteq> n) ys) @ [n]"
  by (induction ys) auto

lemma fillNames_names:
  "map prop_name (fillNames ps ns)
     = map prop_name ps @ rev (remdups (rev (filter (\<lambda>n. n \<notin> set (map prop_name ps)) ns)))"
proof (induction ns arbitrary: ps)
  case Nil
  show ?case by simp
next
  case (Cons n ns)
  show ?case
  proof (cases "n \<in> set (map prop_name ps)")
    case True
    then show ?thesis using Cons.IH[of ps] by simp
  next
    case False
    let ?ps = "ps @ [\<lparr>prop_name = n, prop_type = ''any'', required = False\<rparr>]"
    let ?old = "filter (\<lambda>m. m \<notin> set (map prop_name ps)) ns"
    have f: "filter (\<lambda>m. m \<notin> set (map prop_name ?ps)) ns = filter (\<lambda>m. m \<noteq> n) ?old"
      by (induction ns) auto
    have r: "rev (remdups (rev (n # ?old))) = n # rev (remdups (rev (filter (\<lambda>m. m \<noteq> n) ?old)))"
      by (simp add: remdups_snoc rev_filter)
    have "map prop_name (fillNames ps (n # ns)) = map prop_name (fillNames ?ps ns)"
      using False by simp
    also have "\<dots> = map prop_name ?ps @ rev (remdups (rev (filter (\<lambda>m. m \<noteq> n) ?old)))"
      unfolding Cons.IH[of ?ps] f ..
    also have "\<dots> = map prop_name ps @ rev (remdups (rev (n # ?old)))"
      unfolding r by simp
    also have "n # ?old = filter (\<lambda>m. m \<notin> set (map prop_name ps)) (n # ns)"
      using False by simp
    finally show ?thesis .
  qed
qed

text \<open>
  Claim C8. The props list is meant to have no duplicate names, with the \<open>propTypes\<close>
  props first. For a file with \<open>interface LabelProps { label: string }\<close>, a component
  \<open>function Label({ label, size, color })\<close> and
  \<open>Label.propTypes = { size: PropTypes.number, label: PropTypes.string.isRequired }\<close>,
  \<open>extractProps\<close> returns four props: the interface prop \<open>label\<close> first, then the
  \<open>propTypes\<close> props \<open>size\<close> and \<open>label\<close>, then \<open>color\<close> from the destructuring
  pattern. The name \<open>label\<close> is listed twice, with two different types and two different
  values of \<open>required\<close>: only the destructuring step looks for a name that is already
  in the list.
\<close>

theorem extractProps_duplicate_name:
  "extractProps labelAst =
     [\<lparr>prop_name = ''label'', prop_type = ''string'', required = True\<rparr>,
      \<lparr>prop_name = ''size'', prop_type = ''PropTypes'', required = False\<rparr>,
      \<lparr>prop_name = ''label'', prop_type = ''any'', required = False\<rparr>,
      \<lparr>prop_name = ''color'', prop_type = ''any'', required = False\<rparr>]
   \<and> interfaceProps labelAst
       = [\<lparr>prop_name = ''label'', prop_type = ''string'', required = True\<rparr>]
   \<and> propTypesProps labelAst
       = [\<lparr>prop_name = ''size'', prop_type = ''PropTypes'', required = False\<rparr>,
          \<lparr>prop_name = ''label'', prop_type = ''any'', required = False\<rparr>]
   \<and> destructuredNames labelAst = [''label'', ''size'', ''color'']
   \<and> \<not> distinct (map prop_name (extractProps labelAst))"
  by code_simp


section \<open>Properties of paths\<close>


lemma splitOn_nonempty: "splitOn sep s \<noteq> []"
  by (induction s) (auto split: list.splits)

lemma splitOn_no_sep: "w \<in> set (splitOn sep s) \<Longrightarrow> c \<in> set w \<Longrightarrow> \<not> sep c"
proof (induction s arbitrary: w)
  case Nil
  then show ?case by simp
next
  case (Cons a s)
  show ?case
  proof (cases "sep a")
    case True
    with Cons show ?thesis by auto
  next
    case False
    obtain v vs where sp: "splitOn sep s = v # vs"
      using splitOn_nonempty[of sep s] by (cases "splitOn sep s") auto
    with False Cons.prems have "w = a # v \<or> w \<in> set vs" by auto
    then show ?thesis
    proof
      assume "w = a # v"
      with Cons.prems(2) have "c = a \<or> c \<in> set v" by auto
      then show ?thesis using False Cons.IH[of v] sp by auto
    next
      assume "w \<in> set vs"
      then show ?thesis using Cons.IH[of w] sp Cons.prems(2) by auto
    qed
  qed
qed


lemma segments_plain: "seg \<in> set (segments p) \<Longrightarrow> plainSegment seg"
  using splitOn_no_sep[of seg "\<lambda>c. c = CHR ''/''" p]
  by (auto simp add: segments_def plainSegment_def)

lemma resolveSegments_plain:
  "list_all plainSegment acc \<Longrightarrow> list_all plainSegment segs
     \<Longrightarrow> list_all plainSegment (resolveSegments acc segs)"
proof (induction segs arbitrary: acc)
  case Nil
  then show ?case by simp
next
  case (Cons seg rest)
  have "list_all plainSegment (tl acc)"
    using Cons.prems(1) by (cases acc) simp_all
  with Cons show ?case by simp
qed

lemma resolve_plain: "list_all plainSegment (resolve cwd p)"
  unfolding resolve_def
  by (rule resolveSegments_plain) (auto simp add: list_all_iff segments_plain)

lemma dropCommonPrefix_plain:
  "list_all plainSegment ys \<Longrightarrow> list_all plainSegment (snd (dropCommonPrefix xs ys))"
  by (induction xs ys rule: dropCommonPrefix.induct) simp_all

lemma joinWith_not_absolute:
  "list_all plainSegment segs \<Longrightarrow> \<not> isAbsolute (joinWith ''/'' segs)"
proof (cases segs)
  case Nil
  then show ?thesis by (simp add: isAbsolute_def)
next
  case (Cons seg rest)
  assume "list_all plainSegment segs"
  with Cons obtain c cs where "seg = c # cs" "c \<noteq> CHR ''/''"
    by (cases seg) (auto simp add: plainSegment_def)
  with Cons show ?thesis
    by (cases rest) (simp_all add: isAbsolute_def)
qed

lemma relative_not_absolute: "\<not> isAbsolute (relative cwd from to)"
proof -
  obtain up down where ud: "dropCommonPrefix (resolve cwd from) (resolve cwd to) = (up, down)"
    by (cases "dropCommonPrefix (resolve cwd from) (resolve cwd to)")
  have "list_all plainSegment down"
    using dropCommonPrefix_plain[OF resolve_plain, of "resolve cwd from" cwd to] ud by simp
  moreover have "list_all plainSegment (replicate (length up) ''..'')"
    by (simp add: list_all_iff plainSegment_def)
  ultimately have "list_all plainSegment (replicate (length up) ''..'' @ down)"
    by simp
  then show ?thesis
    unfolding relative_def ud by (simp add: joinWith_not_absolute)
qed


section \<open>Properties of the cache and of the run\<close>


lemma processFile_processed:
  "processedRelativeFilePaths (processFile e st file) =
     processedRelativeFilePaths st @ [relative (env_projectRoot e) (env_projectRoot e) file]"
  by (simp add: processFile_def cacheHit_def reanalyze_def Let_def
        split: option.splits prod.splits meta_value.splits)

lemma foldl_processFile_processed:
  "processedRelativeFilePaths (foldl (processFile e) st files) =
     processedRelativeFilePaths st @ map (relative (env_projectRoot e) (env_projectRoot e)) files"
  by (induction files arbitrary: st) (simp_all add: processFile_processed)

lemma foldl_deleteStep_snd:
  "snd (foldl (deleteStep md5 processed) acc ps) =
     snd acc @ filter (\<lambda>p. p \<notin> set processed) ps"
  by (induction ps arbitrary: acc) (simp_all add: deleteStep_def)

lemma deleteStep_keeps_absent:
  "map_of (fst acc) k = None \<Longrightarrow> map_of (fst (deleteStep md5 processed acc p)) k = None"
  by (simp add: deleteStep_def removeCachedComponent_def delete_conv)

lemma foldl_deleteStep_keeps_absent:
  "map_of (fst acc) k = None \<Longrightarrow> map_of (fst (foldl (deleteStep md5 processed) acc ps)) k = None"
  by (induction ps arbitrary: acc) (simp_all add: deleteStep_keeps_absent)

lemma foldl_deleteStep_removes:
  "p \<in> set ps \<Longrightarrow> p \<notin> set processed \<Longrightarrow>
     map_of (fst (foldl (deleteStep md5 processed) acc ps)) (getCacheFilePath md5 p) = None"
proof (induction ps arbitrary: acc)
  case Nil
  then show ?case by simp
next
  case (Cons q qs)
  show ?case
  proof (cases "p = q")
    case True
    have "map_of (fst (deleteStep md5 processed acc q)) (getCacheFilePath md5 p) = None"
      using True Cons.prems(2) by (simp add: deleteStep_def removeCachedComponent_def delete_conv)
    then show ?thesis
      by (simp add: foldl_deleteStep_keeps_absent)
  next
    case False
    with Cons.prems have "p \<in> set qs" by simp
    then show ?thesis using Cons.IH Cons.prems(2) by simp
  qed
qed

lemma analyze_done:
  assumes "changesetOf (analyze e w files) = Some cs"
  shows "deletedComponents cs =
           snd (foldl (deleteStep (env_md5 e)
                  (processedRelativeFilePaths (foldl (processFile e)
                     \<lparr>cache = cache_files w, components = [], processedRelativeFilePaths = [],
                      changedOrNewRelativeFilePaths = [], events = []\<rparr> files)))
                  (cache (foldl (processFile e)
                     \<lparr>cache = cache_files w, components = [], processedRelativeFilePaths = [],
                      changedOrNewRelativeFilePaths = [], events = []\<rparr> files), [])
                  (getAllCachedFilePaths (cache_files w)))"
    and "cache_files (worldOf (analyze e w files)) =
           fst (foldl (deleteStep (env_md5 e)
                  (processedRelativeFilePaths (foldl (processFile e)
                     \<lparr>cache = cache_files w, components = [], processedRelativeFilePaths = [],
                      changedOrNewRelativeFilePaths = [], events = []\<rparr> files)))
                  (cache (foldl (processFile e)
                     \<lparr>cache = cache_files w, components = [], processedRelativeFilePaths = [],
                      changedOrNewRelativeFilePaths = [], events = []\<rparr> files), [])
                  (getAllCachedFilePaths (cache_files w)))"
  using assms
  by (auto simp add: analyze_def changesetOf_def worldOf_def Let_def
        split: option.splits prod.splits sum.splits)

text \<open>
  What the loop over \<open>initialCachedRelativePaths\<close> does in a run that completes:
  \<open>deletedComponents\<close> is, as a set, the paths \<open>getAllCachedFilePaths\<close> returned before
  the run (the \<open>filePath\<close> stored in each entry) minus the relative paths of the files
  scanned, and for each of them the cache file named by the fingerprint of that path is
  not in the directory afterwards. Whether the entry that listed the path is gone depends
  on where that entry was stored.
\<close>

lemma analyze_deleted:
  assumes "changesetOf (analyze e w files) = Some cs"
  shows "set (deletedComponents cs) =
           set (getAllCachedFilePaths (cache_files w))
           - set (map (relative (env_projectRoot e) (env_projectRoot e)) files)
       \<and> (\<forall>p \<in> set (deletedComponents cs).
             map_of (cache_files (worldOf (analyze e w files))) (getCacheFilePath (env_md5 e) p)
               = None)"
proof -
  let ?st = "foldl (processFile e)
       \<lparr>cache = cache_files w, components = [], processedRelativeFilePaths = [],
        changedOrNewRelativeFilePaths = [], events = []\<rparr> files"
  have proc: "processedRelativeFilePaths ?st =
      map (relative (env_projectRoot e) (env_projectRoot e)) files"
    by (simp add: foldl_processFile_processed)
  have del: "deletedComponents cs =
      filter (\<lambda>p. p \<notin> set (processedRelativeFilePaths ?st)) (getAllCachedFilePaths (cache_files w))"
    using analyze_done(1)[OF assms] by (simp add: foldl_deleteStep_snd)
  have a: "set (deletedComponents cs) =
           set (getAllCachedFilePaths (cache_files w))
           - set (map (relative (env_projectRoot e) (env_projectRoot e)) files)"
    unfolding del proc by auto
  have b: "map_of (cache_files (worldOf (analyze e w files))) (getCacheFilePath (env_md5 e) p) = None"
    if "p \<in> set (deletedComponents cs)" for p
  proof -
    from that del have "p \<in> set (getAllCachedFilePaths (cache_files w))"
      and "p \<notin> set (processedRelativeFilePaths ?st)" by auto
    then show ?thesis
      unfolding analyze_done(2)[OF assms] by (rule foldl_deleteStep_removes)
  qed
  from a b show ?thesis by blast
qed

lemma getCachedComponent_unparsable:
  assumes "map_of dir (getCacheFilePath md5 p) = Some Unparsable"
  shows "getCachedComponent md5 dir p = (None, dir)"
  using assms by (simp add: getCachedComponent_def)

lemma getCachedComponent_invalid:
  assumes "map_of dir (getCacheFilePath md5 p) = Some (Json data)" "validEntry data = None"
  shows "getCachedComponent md5 dir p = (None, AList.delete (getCacheFilePath md5 p) dir)"
    and "map_of (snd (getCachedComponent md5 dir p)) (getCacheFilePath md5 p) = None"
  using assms by (simp_all add: getCachedComponent_def removeCachedComponent_def delete_conv)

lemma validEntry_Some_iff:
  "validEntry data = Some (h, m) \<longleftrightarrow> data = JObj (Some (JStr h)) (Some m)"
  by (cases data rule: validEntry.cases) auto

text \<open>
  Claim C9. An entry that is not valid is meant to be a miss and to be deleted at once.
  \<open>getCachedComponent\<close> does so for a value that parses and fails the validation
  (\<open>getCachedComponent_invalid\<close>), but a file that \<open>JSON.parse\<close> rejects ends in the
  \<open>catch\<close> block, which returns \<open>null\<close> and deletes nothing: the lookup is a miss
  and the file is still in the directory.
\<close>

theorem unparsable_entry_kept:
  assumes "map_of dir (getCacheFilePath md5 p) = Some Unparsable"
  shows "fst (getCachedComponent md5 dir p) = None
       \<and> snd (getCachedComponent md5 dir p) = dir
       \<and> map_of (snd (getCachedComponent md5 dir p)) (getCacheFilePath md5 p) = Some Unparsable"
  using assms by (simp add: getCachedComponent_def)

theorem unparsable_entry_kept_witness:
  "map_of [(''src/components/Navigation.tsx.json'', Unparsable)]
       (getCacheFilePath plainDigest ''src/components/Navigation.tsx'') = Some Unparsable
   \<and> getCachedComponent plainDigest [(''src/components/Navigation.tsx.json'', Unparsable)]
        ''src/components/Navigation.tsx''
       = (None, [(''src/components/Navigation.tsx.json'', Unparsable)])"
proof -
  have h: "map_of [(''src/components/Navigation.tsx.json'', Unparsable)]
       (getCacheFilePath plainDigest ''src/components/Navigation.tsx'') = Some Unparsable"
    by (simp add: getCacheFilePath_def plainDigest_def)
  from unparsable_entry_kept[OF h] h show ?thesis
    by (simp add: prod_eq_iff)
qed




text \<open>
  A run over \<open>Button.tsx\<close> alone, from the cache of a run over \<open>Navigation.tsx\<close> and
  \<open>Button.tsx\<close>: \<open>Navigation.tsx\<close> is reported as deleted and its cache file is gone.
\<close>

lemma analyze_deleted_example:
  "changesetOf (analyze (exampleEnv [(buttonPath, ''v2'')] [])
       \<lparr>cache_files = twoFileCache, output_files = noOutputs\<rparr> [buttonPath])
     = Some \<lparr>newComponents = [], changedComponents = [],
             deletedComponents = [''src/components/Navigation.tsx''],
             componentsJsonChanged = True, patternsJsonChanged = True,
             workflowsJsonChanged = True\<rparr>
   \<and> set [''src/components/Navigation.tsx''] =
       set (getAllCachedFilePaths twoFileCache) - set (map (relative ''/proj'' ''/proj'') [buttonPath])
   \<and> map_of (cache_files (worldOf (analyze (exampleEnv [(buttonPath, ''v2'')] [])
              \<lparr>cache_files = twoFileCache, output_files = noOutputs\<rparr> [buttonPath])))
        (getCacheFilePath plainDigest ''src/components/Navigation.tsx'') = None"
proof -
  let ?e = "exampleEnv [(buttonPath, ''v2'')] []"
  let ?w = "\<lparr>cache_files = twoFileCache, output_files = noOutputs\<rparr>"
  let ?cs = "\<lparr>newComponents = [], changedComponents = [],
             deletedComponents = [''src/components/Navigation.tsx''],
             componentsJsonChanged = True, patternsJsonChanged = True,
             workflowsJsonChanged = True\<rparr>"
  have run: "changesetOf (analyze ?e ?w [buttonPath]) = Some ?cs"
    by code_simp
  have env: "env_projectRoot ?e = ''/proj''" "env_md5 ?e = plainDigest"
    by (simp_all add: exampleEnv_def)
  from analyze_deleted[OF run] run env show ?thesis
    by simp
qed

text \<open>
  Claim C4. \<open>deletedComponents\<close> is meant to hold the relative paths of cached files that
  the scan no longer sees, each with its cache entry removed from storage. With a cache
  entry of the earlier layout (the file stored under the relative path, the absolute path
  in the metadata), which the cache-hit branch expects and makes relative, a run that
  scans \<open>Navigation.tsx\<close> and takes its entry as a cache hit also reports it as deleted, under
  its absolute path: \<open>getAllCachedFilePaths\<close> returns the absolute path, which is not
  among the relative paths of the scan. \<open>removeCachedComponent\<close> then looks for the cache
  file of the absolute path, which does not exist, so the entry stays in storage and is
  listed again after the run.
\<close>

theorem scanned_file_reported_deleted:
  "map_option deletedComponents
     (changesetOf
        (analyze
           ((exampleEnv [(navigationPath, ''v1'')] parses)
              \<lparr>env_stringifyComponents := sc, env_stringifyPatterns := sp,
               env_stringifyWorkflows := sw\<rparr>)
           \<lparr>cache_files = legacyCache, output_files = noOutputs\<rparr> [navigationPath]))
     = Some [navigationPath]
   \<and> isAbsolute navigationPath
   \<and> getAllCachedFilePaths legacyCache = [navigationPath]
   \<and> map (relative ''/proj'' ''/proj'') [navigationPath] = [''src/components/Navigation.tsx'']
   \<and> events (processFile (exampleEnv [(navigationPath, ''v1'')] parses)
               (loopStart legacyCache) navigationPath)
       = [CacheHit ''src/components/Navigation.tsx'']
   \<and> cache_files
        (worldOf
           (analyze
              ((exampleEnv [(navigationPath, ''v1'')] parses)
                 \<lparr>env_stringifyComponents := sc, env_stringifyPatterns := sp,
                  env_stringifyWorkflows := sw\<rparr>)
              \<lparr>cache_files = legacyCache, output_files = noOutputs\<rparr> [navigationPath]))
       = legacyCache"
  by code_simp

text \<open>
  Claim C3. A second run over unchanged files is meant to give an empty changeset. With
  a cache entry of the earlier layout (the absolute path in the metadata, the file
  stored under the relative path), which the cache-hit branch expects and makes
  relative, \<open>getAllCachedFilePaths\<close> returns the absolute path; it is not among the
  relative paths of the scan, so every run reports it as deleted, the second run as
  well, whatever the analyzer and the serialisation are.
\<close>

theorem second_run_reports_deletion:
  "changesetOf
     (analyze
        ((exampleEnv [(navigationPath, ''v1'')] parses)
           \<lparr>env_stringifyComponents := sc, env_stringifyPatterns := sp,
            env_stringifyWorkflows := sw\<rparr>)
        (worldOf
           (analyze
              ((exampleEnv [(navigationPath, ''v1'')] parses)
                 \<lparr>env_stringifyComponents := sc, env_stringifyPatterns := sp,
                  env_stringifyWorkflows := sw\<rparr>)
              \<lparr>cache_files = legacyCache, output_files = noOutputs\<rparr> [navigationPath]))
        [navigationPath])
   = Some \<lparr>newComponents = [], changedComponents = [],
           deletedComponents = [navigationPath],
           componentsJsonChanged = False, patternsJsonChanged = False,
           workflowsJsonChanged = False\<rparr>"
  by code_simp

section \<open>A second run over unchanged files\<close>

lemma map_upd_same: "m k = v \<Longrightarrow> m(k := v) = m"
  by auto

lemma processFile_cache_map:
  "map_of (cache (processFile e st file)) =
     (map_of (cache st))(keyOf e file := fst (stepOutcome e file (map_of (cache st) (keyOf e file))))"
  unfolding processFile_def stepOutcome_def extracted_def keyOf_def getCachedComponent_def
    calculateFileContentHash_def cacheHit_def reanalyze_def cacheComponent_def
    removeCachedComponent_def Let_def
  by (auto simp add: update_conv' delete_conv' map_upd_same fun_upd_idem
        split: option.splits cache_file.splits meta_value.splits prod.splits if_splits)

lemma processFile_components:
  "components (processFile e st file) =
     components st @ fst (snd (stepOutcome e file (map_of (cache st) (keyOf e file))))"
  unfolding processFile_def stepOutcome_def extracted_def keyOf_def getCachedComponent_def
    calculateFileContentHash_def cacheHit_def reanalyze_def cacheComponent_def Let_def
  by (auto split: option.splits cache_file.splits meta_value.splits prod.splits if_splits)

lemma processFile_changedOrNew:
  "changedOrNewRelativeFilePaths (processFile e st file) =
     changedOrNewRelativeFilePaths st
       @ snd (snd (stepOutcome e file (map_of (cache st) (keyOf e file))))"
  unfolding processFile_def stepOutcome_def extracted_def keyOf_def getCachedComponent_def
    calculateFileContentHash_def cacheHit_def reanalyze_def cacheComponent_def Let_def
  by (auto split: option.splits cache_file.splits meta_value.splits prod.splits if_splits)

lemma processFile_distinct:
  "distinct (map fst (cache st)) \<Longrightarrow> distinct (map fst (cache (processFile e st file)))"
  unfolding processFile_def getCachedComponent_def
    calculateFileContentHash_def cacheHit_def reanalyze_def cacheComponent_def
    removeCachedComponent_def Let_def
  by (auto simp add: distinct_update distinct_delete
        split: option.splits cache_file.splits meta_value.splits prod.splits if_splits)


lemma filePath_setFilePath: "filePath (setFilePath f m) = f"
  by (cases m) simp

lemma stepOutcome_written:
  assumes "env_readFile e file = Some content"
  shows "stepOutcome e file
           (Some (Json (JObj (Some (JStr (env_md5 e content)))
              (Some (Meta (setFilePath (relative (env_projectRoot e) (env_projectRoot e) file) m))))))
       = (Some (Json (JObj (Some (JStr (env_md5 e content)))
              (Some (Meta (setFilePath (relative (env_projectRoot e) (env_projectRoot e) file) m))))),
          [setFilePath (relative (env_projectRoot e) (env_projectRoot e) file) m], [])"
  using assms
  by (simp add: stepOutcome_def Let_def filePath_setFilePath relative_not_absolute)

lemma stepOutcome_reanalyzed:
  assumes "env_readFile e file = Some content" "extracted e file = Some parsed"
    and "before = None \<or> before = Some Unparsable
         \<or> (\<exists>data. before = Some (Json data) \<and>
               (validEntry data = None
                \<or> (\<exists>h mv. validEntry data = Some (h, mv) \<and> h \<noteq> env_md5 e content)))"
  shows "stepOutcome e file before
       = (Some (Json (JObj (Some (JStr (env_md5 e content)))
              (Some (Meta (setFilePath (relative (env_projectRoot e) (env_projectRoot e) file) parsed))))),
          [setFilePath (relative (env_projectRoot e) (env_projectRoot e) file) parsed],
          [relative (env_projectRoot e) (env_projectRoot e) file])"
  using assms
  by (auto simp add: stepOutcome_def Let_def split: meta_value.splits)

lemma stepOutcome_kept:
  assumes "env_readFile e file = None
     \<or> (\<exists>content. env_readFile e file = Some content \<and>
          ((extracted e file = None \<and>
              (before = None \<or> before = Some Unparsable
               \<or> (\<exists>data h mv. before = Some (Json data) \<and> validEntry data = Some (h, mv)
                      \<and> h \<noteq> env_md5 e content)))
           \<or> (\<exists>data mv. before = Some (Json data)
                  \<and> validEntry data = Some (env_md5 e content, mv))))"
  shows "fst (stepOutcome e file before) = before
       \<and> snd (snd (stepOutcome e file before)) = []"
  using assms
  by (auto simp add: stepOutcome_def Let_def split: meta_value.splits)

lemma stepOutcome_purged:
  assumes "env_readFile e file = Some content" "extracted e file = None"
    "before = Some (Json data)" "validEntry data = None"
  shows "stepOutcome e file before = (None, [], [])"
    and "stepOutcome e file None = (None, [], [])"
  using assms
  by (simp_all add: stepOutcome_def Let_def)

lemma stepOutcome_cases:
  obtains (kept) "fst (stepOutcome e file before) = before"
      "snd (snd (stepOutcome e file before)) = []"
  | (written) content parsed where "env_readFile e file = Some content"
      "stepOutcome e file before
       = (Some (Json (JObj (Some (JStr (env_md5 e content)))
              (Some (Meta (setFilePath (relative (env_projectRoot e) (env_projectRoot e) file) parsed))))),
          [setFilePath (relative (env_projectRoot e) (env_projectRoot e) file) parsed],
          [relative (env_projectRoot e) (env_projectRoot e) file])"
  | (purged) "stepOutcome e file before = (None, [], [])" "stepOutcome e file None = (None, [], [])"
proof (cases "env_readFile e file")
  case None
  then have "fst (stepOutcome e file before) = before
       \<and> snd (snd (stepOutcome e file before)) = []"
    by (intro stepOutcome_kept) simp
  then show ?thesis using kept by simp
next
  case rd: (Some content)
  have valid_split: "validEntry data = None \<or> (\<exists>h mv. validEntry data = Some (h, mv))" for data
    by (cases "validEntry data") auto
  show ?thesis
  proof (cases "\<exists>data mv. before = Some (Json data)
                  \<and> validEntry data = Some (env_md5 e content, mv)")
    case True
    with rd have "fst (stepOutcome e file before) = before
       \<and> snd (snd (stepOutcome e file before)) = []"
      by (intro stepOutcome_kept) blast
    then show ?thesis using kept by simp
  next
    case nohit: False
    have shape: "before = None \<or> before = Some Unparsable
         \<or> (\<exists>data. before = Some (Json data) \<and>
               (validEntry data = None
                \<or> (\<exists>h mv. validEntry data = Some (h, mv) \<and> h \<noteq> env_md5 e content)))"
    proof (cases before)
      case None
      then show ?thesis by simp
    next
      case (Some cf)
      then show ?thesis using nohit valid_split by (cases cf) auto
    qed
    show ?thesis
    proof (cases "extracted e file")
      case (Some parsed)
      from stepOutcome_reanalyzed[OF rd Some shape] show ?thesis using written rd by blast
    next
      case None
      from shape consider "before = None \<or> before = Some Unparsable
               \<or> (\<exists>data h mv. before = Some (Json data) \<and> validEntry data = Some (h, mv)
                      \<and> h \<noteq> env_md5 e content)"
        | data where "before = Some (Json data)" "validEntry data = None"
        by blast
      then show ?thesis
      proof cases
        case 1
        with rd None have "fst (stepOutcome e file before) = before
           \<and> snd (snd (stepOutcome e file before)) = []"
          by (intro stepOutcome_kept) blast
        then show ?thesis using kept by simp
      next
        case 2
        from stepOutcome_purged[OF rd None 2] show ?thesis using purged by blast
      qed
    qed
  qed
qed

lemma stepOutcome_again:
  "stepOutcome e file (fst (stepOutcome e file before)) =
     (fst (stepOutcome e file before), fst (snd (stepOutcome e file before)), [])"
proof (cases rule: stepOutcome_cases[of e "file" before])
  case kept
  then show ?thesis by (simp add: prod_eq_iff)
next
  case (written content parsed)
  then show ?thesis using stepOutcome_written[OF written(1), of parsed] by simp
next
  case purged
  then show ?thesis by simp
qed

lemma stepOutcome_paths:
  assumes "fst (stepOutcome e file before) = Some c" "p \<in> set (cachedFilePath (k, c))"
  shows "before = Some c \<or> p = relative (env_projectRoot e) (env_projectRoot e) file"
  using assms unfolding stepOutcome_def Let_def
  by (auto simp add: filePath_setFilePath
        split: option.splits cache_file.splits meta_value.splits prod.splits if_splits)

lemma foldl_processFile_distinct:
  "distinct (map fst (cache st)) \<Longrightarrow> distinct (map fst (cache (foldl (processFile e) st files)))"
  by (induction files arbitrary: st) (simp_all add: processFile_distinct)

lemma foldl_deleteStep_map:
  "map_of (fst (foldl (deleteStep md5 processed) acc ps)) k =
     (if k \<in> getCacheFilePath md5 ` (set ps - set processed) then None else map_of (fst acc) k)"
proof (induction ps arbitrary: acc)
  case Nil
  then show ?case by simp
next
  case (Cons q qs)
  have "map_of (fst (deleteStep md5 processed acc q)) k =
      (if q \<notin> set processed \<and> k = getCacheFilePath md5 q then None else map_of (fst acc) k)"
    by (auto simp add: deleteStep_def removeCachedComponent_def delete_conv)
  with Cons.IH[of "deleteStep md5 processed acc q"] show ?case
    by auto
qed

lemma foldl_deleteStep_distinct:
  "distinct (map fst (fst acc)) \<Longrightarrow>
     distinct (map fst (fst (foldl (deleteStep md5 processed) acc ps)))"
  by (induction ps arbitrary: acc)
     (simp_all add: deleteStep_def removeCachedComponent_def distinct_delete)

lemma saveArtifact_again:
  assumes "saveArtifact md5 stringify old new = Some (changed, saved)"
  shows "saveArtifact md5 stringify saved new = Some (False, saved)"
  using assms
  by (auto simp add: saveArtifact_def split: option.splits json_file.splits if_splits)


lemma processFile_cache_other:
  "k \<noteq> keyOf e g \<Longrightarrow> map_of (cache (processFile e st g)) k = map_of (cache st) k"
  by (simp add: processFile_cache_map)

lemma processFile_cache_own:
  "map_of (cache (processFile e st g)) (keyOf e g)
     = fst (stepOutcome e g (map_of (cache st) (keyOf e g)))"
  by (simp add: processFile_cache_map)

lemma foldl_processFile_cache_other:
  "k \<notin> keyOf e ` set files \<Longrightarrow>
     map_of (cache (foldl (processFile e) st files)) k = map_of (cache st) k"
proof (induction files arbitrary: st)
  case Nil
  show ?case by simp
next
  case (Cons g rest)
  from Cons.prems have k1: "k \<noteq> keyOf e g" and k2: "k \<notin> keyOf e ` set rest"
    by simp_all
  have "map_of (cache (foldl (processFile e) (processFile e st g) rest)) k
      = map_of (cache (processFile e st g)) k"
    by (rule Cons.IH[OF k2])
  also have "\<dots> = map_of (cache st) k"
    by (rule processFile_cache_other[OF k1])
  finally show ?case by simp
qed

lemma foldl_processFile_cache_own:
  "distinct (map (keyOf e) files) \<Longrightarrow> f \<in> set files \<Longrightarrow>
     map_of (cache (foldl (processFile e) st files)) (keyOf e f)
       = fst (stepOutcome e f (map_of (cache st) (keyOf e f)))"
proof (induction files arbitrary: st)
  case Nil
  then show ?case by simp
next
  case (Cons g rest)
  from Cons.prems(1) have d: "distinct (map (keyOf e) rest)"
    and ng: "keyOf e g \<notin> keyOf e ` set rest"
    by simp_all
  show ?case
  proof (cases "f \<in> set rest")
    case True
    then have "keyOf e f \<in> keyOf e ` set rest" by (rule imageI)
    with ng have ne: "keyOf e f \<noteq> keyOf e g" by metis
    have "map_of (cache (foldl (processFile e) (processFile e st g) rest)) (keyOf e f)
        = fst (stepOutcome e f (map_of (cache (processFile e st g)) (keyOf e f)))"
      by (rule Cons.IH[OF d True])
    also have "map_of (cache (processFile e st g)) (keyOf e f) = map_of (cache st) (keyOf e f)"
      by (rule processFile_cache_other[OF ne])
    finally show ?thesis by simp
  next
    case False
    with Cons.prems(2) have fg: "f = g" by simp
    have "map_of (cache (foldl (processFile e) (processFile e st g) rest)) (keyOf e g)
        = map_of (cache (processFile e st g)) (keyOf e g)"
      by (rule foldl_processFile_cache_other[OF ng])
    also have "\<dots> = fst (stepOutcome e g (map_of (cache st) (keyOf e g)))"
      by (rule processFile_cache_own)
    finally show ?thesis unfolding fg by simp
  qed
qed

lemma foldl_processFile_components:
  "distinct (map (keyOf e) files) \<Longrightarrow>
     components (foldl (processFile e) st files) =
       components st
         @ concat (map (\<lambda>f. fst (snd (stepOutcome e f (map_of (cache st) (keyOf e f))))) files)"
proof (induction files arbitrary: st)
  case Nil
  show ?case by simp
next
  case (Cons g rest)
  from Cons.prems have d: "distinct (map (keyOf e) rest)"
    and ng: "keyOf e g \<notin> keyOf e ` set rest"
    by simp_all
  have same: "map_of (cache (processFile e st g)) (keyOf e f) = map_of (cache st) (keyOf e f)"
    if "f \<in> set rest" for f
  proof -
    from that have "keyOf e f \<in> keyOf e ` set rest" by (rule imageI)
    with ng have "keyOf e f \<noteq> keyOf e g" by metis
    then show ?thesis by (rule processFile_cache_other)
  qed
  have mapc:
    "map (\<lambda>f. fst (snd (stepOutcome e f (map_of (cache (processFile e st g)) (keyOf e f))))) rest
      = map (\<lambda>f. fst (snd (stepOutcome e f (map_of (cache st) (keyOf e f))))) rest"
    by (rule map_cong[OF refl]) (simp only: same)
  have "components (foldl (processFile e) st (g # rest))
      = components (foldl (processFile e) (processFile e st g) rest)"
    by simp
  also have "\<dots> = components (processFile e st g)
      @ concat (map (\<lambda>f. fst (snd (stepOutcome e f
           (map_of (cache (processFile e st g)) (keyOf e f))))) rest)"
    by (rule Cons.IH[OF d])
  also have "\<dots> = (components st @ fst (snd (stepOutcome e g (map_of (cache st) (keyOf e g)))))
      @ concat (map (\<lambda>f. fst (snd (stepOutcome e f (map_of (cache st) (keyOf e f))))) rest)"
    by (simp only: mapc processFile_components)
  finally show ?case by simp
qed

lemma foldl_processFile_changedOrNew:
  "distinct (map (keyOf e) files) \<Longrightarrow>
     changedOrNewRelativeFilePaths (foldl (processFile e) st files) =
       changedOrNewRelativeFilePaths st
         @ concat (map (\<lambda>f. snd (snd (stepOutcome e f (map_of (cache st) (keyOf e f))))) files)"
proof (induction files arbitrary: st)
  case Nil
  show ?case by simp
next
  case (Cons g rest)
  from Cons.prems have d: "distinct (map (keyOf e) rest)"
    and ng: "keyOf e g \<notin> keyOf e ` set rest"
    by simp_all
  have same: "map_of (cache (processFile e st g)) (keyOf e f) = map_of (cache st) (keyOf e f)"
    if "f \<in> set rest" for f
  proof -
    from that have "keyOf e f \<in> keyOf e ` set rest" by (rule imageI)
    with ng have "keyOf e f \<noteq> keyOf e g" by metis
    then show ?thesis by (rule processFile_cache_other)
  qed
  have mapn:
    "map (\<lambda>f. snd (snd (stepOutcome e f (map_of (cache (processFile e st g)) (keyOf e f))))) rest
      = map (\<lambda>f. snd (snd (stepOutcome e f (map_of (cache st) (keyOf e f))))) rest"
    by (rule map_cong[OF refl]) (simp only: same)
  have "changedOrNewRelativeFilePaths (foldl (processFile e) st (g # rest))
      = changedOrNewRelativeFilePaths (foldl (processFile e) (processFile e st g) rest)"
    by simp
  also have "\<dots> = changedOrNewRelativeFilePaths (processFile e st g)
      @ concat (map (\<lambda>f. snd (snd (stepOutcome e f
           (map_of (cache (processFile e st g)) (keyOf e f))))) rest)"
    by (rule Cons.IH[OF d])
  also have "\<dots> = (changedOrNewRelativeFilePaths st
        @ snd (snd (stepOutcome e g (map_of (cache st) (keyOf e g)))))
      @ concat (map (\<lambda>f. snd (snd (stepOutcome e f (map_of (cache st) (keyOf e f))))) rest)"
    by (simp only: mapn processFile_changedOrNew)
  finally show ?case by simp
qed

lemma getCacheFilePath_inj:
  assumes "inj md5" "getCacheFilePath md5 p = getCacheFilePath md5 q"
  shows "p = q"
  using assms by (simp add: getCacheFilePath_def inj_eq)

lemma keyOf_distinct:
  assumes "inj (env_md5 e)"
    and "distinct (map (relative (env_projectRoot e) (env_projectRoot e)) files)"
  shows "distinct (map (keyOf e) files)"
proof -
  from assms(2) have d: "distinct files"
    and i: "inj_on (relative (env_projectRoot e) (env_projectRoot e)) (set files)"
    by (simp_all add: distinct_map)
  have "inj_on (keyOf e) (set files)"
  proof (rule inj_onI)
    fix a b
    assume a: "a \<in> set files" and b: "b \<in> set files" and k: "keyOf e a = keyOf e b"
    from k have "relative (env_projectRoot e) (env_projectRoot e) a
        = relative (env_projectRoot e) (env_projectRoot e) b"
      unfolding keyOf_def by (rule getCacheFilePath_inj[OF assms(1)])
    with i a b show "a = b"
      by (simp add: inj_on_def)
  qed
  with d show ?thesis
    by (simp add: distinct_map)
qed

lemma processFile_cache_kept:
  assumes "stepOutcome e file (map_of (cache st) (keyOf e file))
             = (map_of (cache st) (keyOf e file), cs, [])"
  shows "cache (processFile e st file) = cache st"
  using assms
  unfolding processFile_def stepOutcome_def extracted_def keyOf_def getCachedComponent_def
    calculateFileContentHash_def cacheHit_def reanalyze_def cacheComponent_def
    removeCachedComponent_def Let_def
  by (auto split: option.splits cache_file.splits meta_value.splits prod.splits if_splits)

lemma foldl_processFile_cache_kept:
  assumes "\<And>f. f \<in> set files \<Longrightarrow>
             stepOutcome e f (map_of d (keyOf e f))
               = (map_of d (keyOf e f), fst (snd (stepOutcome e f (map_of d (keyOf e f)))), [])"
    and "cache st = d"
  shows "cache (foldl (processFile e) st files) = d"
  using assms
proof (induction files arbitrary: st)
  case Nil
  then show ?case by simp
next
  case (Cons g rest)
  have "stepOutcome e g (map_of (cache st) (keyOf e g))
      = (map_of (cache st) (keyOf e g),
         fst (snd (stepOutcome e g (map_of (cache st) (keyOf e g)))), [])"
    using Cons.prems(1)[of g] Cons.prems(2) by simp
  then have "cache (processFile e st g) = cache st"
    by (rule processFile_cache_kept)
  with Cons.prems(2) have c: "cache (processFile e st g) = d"
    by simp
  have "cache (foldl (processFile e) (processFile e st g) rest) = d"
    using Cons.prems(1) c by (intro Cons.IH) simp_all
  then show ?case by simp
qed

lemma foldl_deleteStep_none:
  "set ps \<subseteq> set processed \<Longrightarrow> foldl (deleteStep md5 processed) acc ps = acc"
  by (induction ps arbitrary: acc) (simp_all add: deleteStep_def)

lemma analyze_result:
  fixes e w files
  defines "st \<equiv> foldl (processFile e) (loopStart (cache_files w)) files"
  defines "initial \<equiv> getAllCachedFilePaths (cache_files w)"
  defines "del \<equiv> foldl (deleteStep (env_md5 e) (processedRelativeFilePaths st)) (cache st, [])
                    initial"
  defines "cs \<equiv> \<lambda>cc pc wc.
     \<lparr>newComponents = filter (\<lambda>p. p \<notin> set initial) (changedOrNewRelativeFilePaths st),
      changedComponents = filter (\<lambda>p. p \<in> set initial) (changedOrNewRelativeFilePaths st),
      deletedComponents = snd del,
      componentsJsonChanged = cc, patternsJsonChanged = pc, workflowsJsonChanged = wc\<rparr>"
  assumes "saveArtifact (env_md5 e) (env_stringifyComponents e)
             (componentsJson (output_files w)) (components st) = Some (cc, cfile)"
    and "saveArtifact (env_md5 e) (env_stringifyPatterns e)
             (patternsJson (output_files w)) (detectPatterns (components st)) = Some (pc, pfile)"
    and "saveArtifact (env_md5 e) (env_stringifyWorkflows e)
             (workflowsJson (output_files w)) (detectWorkflows (components st)) = Some (wc, wfile)"
  shows "analyze e w files =
           Inr (cs cc pc wc,
                \<lparr>cache_files = fst del,
                 output_files = (output_files w)
                   \<lparr>componentsJson := cfile, patternsJson := pfile, workflowsJson := wfile,
                    changesetJson := Some (cs cc pc wc)\<rparr>\<rparr>)"
  using assms(5-7)
  unfolding analyze_def st_def initial_def del_def cs_def loopStart_def Let_def
  by simp

lemma analyze_Inr_elim:
  fixes e w files
  defines "st \<equiv> foldl (processFile e) (loopStart (cache_files w)) files"
  defines "initial \<equiv> getAllCachedFilePaths (cache_files w)"
  defines "del \<equiv> foldl (deleteStep (env_md5 e) (processedRelativeFilePaths st)) (cache st, [])
                    initial"
  assumes "analyze e w files = Inr (cs, w1)"
  obtains cc cfile pc pfile wc wfile where
    "saveArtifact (env_md5 e) (env_stringifyComponents e)
             (componentsJson (output_files w)) (components st) = Some (cc, cfile)"
    "saveArtifact (env_md5 e) (env_stringifyPatterns e)
             (patternsJson (output_files w)) (detectPatterns (components st)) = Some (pc, pfile)"
    "saveArtifact (env_md5 e) (env_stringifyWorkflows e)
             (workflowsJson (output_files w)) (detectWorkflows (components st)) = Some (wc, wfile)"
    "cache_files w1 = fst del"
    "componentsJson (output_files w1) = cfile"
    "patternsJson (output_files w1) = pfile"
    "workflowsJson (output_files w1) = wfile"
  using assms(4)
  unfolding analyze_def st_def initial_def del_def loopStart_def Let_def
  by (auto split: option.splits prod.splits)

lemma keyedCacheD:
  assumes "keyedCache md5 dir" "(k, c) \<in> set dir" "p \<in> set (cachedFilePath (k, c))"
  shows "k = getCacheFilePath md5 p"
  using assms by (auto simp add: keyedCache_def list_all_iff)

lemma getAllCachedFilePaths_iff:
  "p \<in> set (getAllCachedFilePaths dir) \<longleftrightarrow>
     (\<exists>k c. (k, c) \<in> set dir \<and> p \<in> set (cachedFilePath (k, c)))"
  by (auto simp add: getAllCachedFilePaths_def)

text \<open>
  After a completed run from a cache in the current layout, with an injective digest and
  pairwise different relative paths, every path the cache lists is the relative path of
  a scanned file.
\<close>

lemma run_lists_scanned:
  assumes inj: "inj (env_md5 e)"
    and keyed: "keyedCache (env_md5 e) (cache_files w)"
    and files: "distinct (map (relative (env_projectRoot e) (env_projectRoot e)) files)"
    and run1: "analyze e w files = Inr (cs1, w1)"
  shows "set (getAllCachedFilePaths (cache_files w1))
           \<subseteq> set (map (relative (env_projectRoot e) (env_projectRoot e)) files)"
proof -
  let ?rel = "relative (env_projectRoot e) (env_projectRoot e)"
  let ?key = "getCacheFilePath (env_md5 e)"
  let ?d0 = "cache_files w"
  let ?d1 = "cache_files w1"
  let ?P = "map ?rel files"
  let ?st1 = "foldl (processFile e) (loopStart ?d0) files"
  let ?I0 = "getAllCachedFilePaths ?d0"
  let ?I1 = "getAllCachedFilePaths ?d1"
  let ?del1 = "foldl (deleteStep (env_md5 e) (processedRelativeFilePaths ?st1)) (cache ?st1, []) ?I0"
  have start: "cache (loopStart d) = d" "components (loopStart d) = []"
    "changedOrNewRelativeFilePaths (loopStart d) = []"
    "processedRelativeFilePaths (loopStart d) = []" for d
    by (simp_all add: loopStart_def)
  from analyze_Inr_elim[OF run1] have cw1: "?d1 = fst ?del1"
    by blast
  have proc1: "processedRelativeFilePaths ?st1 = ?P"
    by (simp add: foldl_processFile_processed start)
  have kd: "distinct (map (keyOf e) files)"
    by (rule keyOf_distinct[OF inj files])
  have d1map: "map_of ?d1 k =
      (if k \<in> ?key ` (set ?I0 - set ?P) then None else map_of (cache ?st1) k)" for k
    unfolding cw1 proc1 by (simp add: foldl_deleteStep_map)
  have notdel: "keyOf e f \<notin> ?key ` (set ?I0 - set ?P)" if "f \<in> set files" for f
  proof
    assume "keyOf e f \<in> ?key ` (set ?I0 - set ?P)"
    then obtain p where p: "p \<notin> set ?P" and k: "keyOf e f = ?key p"
      by blast
    from k have "?rel f = p"
      unfolding keyOf_def by (rule getCacheFilePath_inj[OF inj])
    with that p show False
      by auto
  qed
  have own: "map_of ?d1 (keyOf e f) = fst (stepOutcome e f (map_of ?d0 (keyOf e f)))"
    if "f \<in> set files" for f
  proof -
    have "map_of ?d1 (keyOf e f) = map_of (cache ?st1) (keyOf e f)"
      using notdel[OF that] by (simp add: d1map)
    also have "\<dots> = fst (stepOutcome e f (map_of (cache (loopStart ?d0)) (keyOf e f)))"
      by (rule foldl_processFile_cache_own[OF kd that])
    finally show ?thesis
      by (simp add: start)
  qed
  have dist0: "distinct (map fst ?d0)"
    using keyed by (simp add: keyedCache_def)
  have dist1: "distinct (map fst ?d1)"
    unfolding cw1
    by (intro foldl_deleteStep_distinct) (simp add: foldl_processFile_distinct dist0 start)
  have listed: "set ?I1 \<subseteq> set ?P"
  proof
    fix p
    assume "p \<in> set ?I1"
    then obtain k c where kc: "(k, c) \<in> set ?d1" and pc: "p \<in> set (cachedFilePath (k, c))"
      unfolding getAllCachedFilePaths_iff by blast
    from kc dist1 have m1: "map_of ?d1 k = Some c"
      by simp
    show "p \<in> set ?P"
    proof (cases "k \<in> keyOf e ` set files")
      case True
      then obtain f where f: "f \<in> set files" and kf: "k = keyOf e f"
        by blast
      from m1 own[OF f] kf have "fst (stepOutcome e f (map_of ?d0 k)) = Some c"
        by simp
      from stepOutcome_paths[OF this pc]
      show ?thesis
      proof
        assume "map_of ?d0 k = Some c"
        then have "(k, c) \<in> set ?d0"
          by (rule map_of_SomeD)
        from keyedCacheD[OF keyed this pc] kf have "keyOf e f = ?key p"
          by simp
        then have "?rel f = p"
          unfolding keyOf_def by (rule getCacheFilePath_inj[OF inj])
        with f show ?thesis
          by auto
      next
        assume "p = ?rel f"
        with f show ?thesis
          by simp
      qed
    next
      case False
      from m1 have nd: "k \<notin> ?key ` (set ?I0 - set ?P)" and m: "map_of (cache ?st1) k = Some c"
        by (simp_all add: d1map split: if_splits)
      from m have "map_of ?d0 k = Some c"
        using foldl_processFile_cache_other[OF False, of "loopStart ?d0"] by (simp add: start)
      then have in0: "(k, c) \<in> set ?d0"
        by (rule map_of_SomeD)
      with pc have "p \<in> set ?I0"
        unfolding getAllCachedFilePaths_iff by blast
      moreover from keyedCacheD[OF keyed in0 pc] have "k = ?key p" .
      ultimately show ?thesis
        using nd by blast
    qed
  qed
  from listed show ?thesis .
qed

text \<open>
  Deletion for caches in the current layout. Under the same hypotheses the deleted paths
  are the listed paths that the scan did not see, and after the run none of them is
  listed by the cache or has a cache file.
\<close>

lemma deleted_entries_removed:
  assumes inj: "inj (env_md5 e)"
    and keyed: "keyedCache (env_md5 e) (cache_files w)"
    and files: "distinct (map (relative (env_projectRoot e) (env_projectRoot e)) files)"
    and run1: "analyze e w files = Inr (cs, w1)"
  shows "set (deletedComponents cs) =
           set (getAllCachedFilePaths (cache_files w))
           - set (map (relative (env_projectRoot e) (env_projectRoot e)) files)"
    and "p \<in> set (deletedComponents cs) \<Longrightarrow>
           p \<notin> set (getAllCachedFilePaths (cache_files w1))
           \<and> map_of (cache_files w1) (getCacheFilePath (env_md5 e) p) = None"
proof -
  from run1 have cs: "changesetOf (analyze e w files) = Some cs"
    and w1: "worldOf (analyze e w files) = w1"
    by (simp_all add: changesetOf_def worldOf_def)
  from analyze_deleted[OF cs]
  show a: "set (deletedComponents cs) =
           set (getAllCachedFilePaths (cache_files w))
           - set (map (relative (env_projectRoot e) (env_projectRoot e)) files)"
    by blast
  assume p: "p \<in> set (deletedComponents cs)"
  with a have "p \<notin> set (map (relative (env_projectRoot e) (env_projectRoot e)) files)"
    by blast
  with run_lists_scanned[OF inj keyed files run1]
  have "p \<notin> set (getAllCachedFilePaths (cache_files w1))"
    by blast
  moreover from analyze_deleted[OF cs] p w1
  have "map_of (cache_files w1) (getCacheFilePath (env_md5 e) p) = None"
    by simp
  ultimately show "p \<notin> set (getAllCachedFilePaths (cache_files w1))
           \<and> map_of (cache_files w1) (getCacheFilePath (env_md5 e) p) = None"
    by blast
qed

text \<open>
  Idempotence for caches in the current layout. When the digest is injective, the cache
  directory before the first run stores every listed path in the cache file of that
  path, and the scanned files have pairwise different relative paths, a second run over
  the same files, started from what a completed first run left, has an empty changeset
  and leaves the cache and the three result files as they are.
\<close>

theorem second_run_idempotent:
  assumes inj: "inj (env_md5 e)"
    and keyed: "keyedCache (env_md5 e) (cache_files w)"
    and files: "distinct (map (relative (env_projectRoot e) (env_projectRoot e)) files)"
    and run1: "analyze e w files = Inr (cs1, w1)"
  shows "analyze e w1 files =
           Inr (emptyChangeset,
                w1\<lparr>output_files := (output_files w1)\<lparr>changesetJson := Some emptyChangeset\<rparr>\<rparr>)"
proof -
  let ?rel = "relative (env_projectRoot e) (env_projectRoot e)"
  let ?key = "getCacheFilePath (env_md5 e)"
  let ?d0 = "cache_files w"
  let ?d1 = "cache_files w1"
  let ?P = "map ?rel files"
  let ?st1 = "foldl (processFile e) (loopStart ?d0) files"
  let ?st2 = "foldl (processFile e) (loopStart ?d1) files"
  let ?I0 = "getAllCachedFilePaths ?d0"
  let ?I1 = "getAllCachedFilePaths ?d1"
  let ?del1 = "foldl (deleteStep (env_md5 e) (processedRelativeFilePaths ?st1)) (cache ?st1, []) ?I0"
  have start: "cache (loopStart d) = d" "components (loopStart d) = []"
    "changedOrNewRelativeFilePaths (loopStart d) = []"
    "processedRelativeFilePaths (loopStart d) = []" for d
    by (simp_all add: loopStart_def)
  from analyze_Inr_elim[OF run1] obtain cc cfile pc pfile wc wfile where
    s1: "saveArtifact (env_md5 e) (env_stringifyComponents e)
           (componentsJson (output_files w)) (components ?st1) = Some (cc, cfile)"
    and s2: "saveArtifact (env_md5 e) (env_stringifyPatterns e)
           (patternsJson (output_files w)) (detectPatterns (components ?st1)) = Some (pc, pfile)"
    and s3: "saveArtifact (env_md5 e) (env_stringifyWorkflows e)
           (workflowsJson (output_files w)) (detectWorkflows (components ?st1)) = Some (wc, wfile)"
    and cw1: "?d1 = fst ?del1"
    and o1: "componentsJson (output_files w1) = cfile"
    and o2: "patternsJson (output_files w1) = pfile"
    and o3: "workflowsJson (output_files w1) = wfile"
    by blast
  have proc1: "processedRelativeFilePaths ?st1 = ?P"
    by (simp add: foldl_processFile_processed start)
  have proc2: "processedRelativeFilePaths ?st2 = ?P"
    by (simp add: foldl_processFile_processed start)
  have kd: "distinct (map (keyOf e) files)"
    by (rule keyOf_distinct[OF inj files])
  have d1map: "map_of ?d1 k =
      (if k \<in> ?key ` (set ?I0 - set ?P) then None else map_of (cache ?st1) k)" for k
    unfolding cw1 proc1 by (simp add: foldl_deleteStep_map)
  have notdel: "keyOf e f \<notin> ?key ` (set ?I0 - set ?P)" if "f \<in> set files" for f
  proof
    assume "keyOf e f \<in> ?key ` (set ?I0 - set ?P)"
    then obtain p where p: "p \<notin> set ?P" and k: "keyOf e f = ?key p"
      by blast
    from k have "?rel f = p"
      unfolding keyOf_def by (rule getCacheFilePath_inj[OF inj])
    with that p show False
      by auto
  qed
  have own: "map_of ?d1 (keyOf e f) = fst (stepOutcome e f (map_of ?d0 (keyOf e f)))"
    if "f \<in> set files" for f
  proof -
    have "map_of ?d1 (keyOf e f) = map_of (cache ?st1) (keyOf e f)"
      using notdel[OF that] by (simp add: d1map)
    also have "\<dots> = fst (stepOutcome e f (map_of (cache (loopStart ?d0)) (keyOf e f)))"
      by (rule foldl_processFile_cache_own[OF kd that])
    finally show ?thesis
      by (simp add: start)
  qed
  have again: "stepOutcome e f (map_of ?d1 (keyOf e f)) =
      (map_of ?d1 (keyOf e f), fst (snd (stepOutcome e f (map_of ?d0 (keyOf e f)))), [])"
    if "f \<in> set files" for f
    unfolding own[OF that] by (rule stepOutcome_again)
  have comp2: "components ?st2 = components ?st1"
  proof -
    have m: "map (\<lambda>f. fst (snd (stepOutcome e f (map_of ?d1 (keyOf e f))))) files
        = map (\<lambda>f. fst (snd (stepOutcome e f (map_of ?d0 (keyOf e f))))) files"
      by (rule map_cong[OF refl]) (simp add: again)
    have e2: "components ?st2
        = concat (map (\<lambda>f. fst (snd (stepOutcome e f (map_of ?d1 (keyOf e f))))) files)"
      by (simp add: foldl_processFile_components[OF kd] start)
    have e1: "components ?st1
        = concat (map (\<lambda>f. fst (snd (stepOutcome e f (map_of ?d0 (keyOf e f))))) files)"
      by (simp add: foldl_processFile_components[OF kd] start)
    show ?thesis
      by (simp only: e1 e2 m)
  qed
  have ch2: "changedOrNewRelativeFilePaths ?st2 = []"
  proof -
    have m: "map (\<lambda>f. snd (snd (stepOutcome e f (map_of ?d1 (keyOf e f))))) files
        = map (\<lambda>f. []) files"
      by (rule map_cong[OF refl]) (simp add: again)
    have e2: "changedOrNewRelativeFilePaths ?st2
        = concat (map (\<lambda>f. snd (snd (stepOutcome e f (map_of ?d1 (keyOf e f))))) files)"
      by (simp add: foldl_processFile_changedOrNew[OF kd] start)
    show ?thesis
      unfolding e2 m by simp
  qed
  have cache2: "cache ?st2 = ?d1"
  proof (rule foldl_processFile_cache_kept)
    fix f
    assume "f \<in> set files"
    from again[OF this]
    show "stepOutcome e f (map_of ?d1 (keyOf e f))
        = (map_of ?d1 (keyOf e f), fst (snd (stepOutcome e f (map_of ?d1 (keyOf e f)))), [])"
      by simp
  next
    show "cache (loopStart ?d1) = ?d1"
      by (simp add: start)
  qed
  have dist0: "distinct (map fst ?d0)"
    using keyed by (simp add: keyedCache_def)
  have dist1: "distinct (map fst ?d1)"
    unfolding cw1
    by (intro foldl_deleteStep_distinct) (simp add: foldl_processFile_distinct dist0 start)
  have listed: "set ?I1 \<subseteq> set ?P"
    by (rule run_lists_scanned[OF inj keyed files run1])
  have del2: "foldl (deleteStep (env_md5 e) (processedRelativeFilePaths ?st2)) (cache ?st2, []) ?I1
      = (?d1, [])"
    unfolding proc2 cache2 by (rule foldl_deleteStep_none[OF listed])
  have t1: "saveArtifact (env_md5 e) (env_stringifyComponents e)
           (componentsJson (output_files w1)) (components ?st2) = Some (False, cfile)"
    unfolding comp2 o1 by (rule saveArtifact_again[OF s1])
  have t2: "saveArtifact (env_md5 e) (env_stringifyPatterns e)
           (patternsJson (output_files w1)) (detectPatterns (components ?st2)) = Some (False, pfile)"
    unfolding comp2 o2 by (rule saveArtifact_again[OF s2])
  have t3: "saveArtifact (env_md5 e) (env_stringifyWorkflows e)
           (workflowsJson (output_files w1)) (detectWorkflows (components ?st2)) = Some (False, wfile)"
    unfolding comp2 o3 by (rule saveArtifact_again[OF s3])
  have same_out: "(output_files w1)\<lparr>componentsJson := cfile, patternsJson := pfile,
        workflowsJson := wfile, changesetJson := x\<rparr> = (output_files w1)\<lparr>changesetJson := x\<rparr>" for x
    using o1 o2 o3 by (cases "output_files w1") simp
  have same_world: "\<lparr>cache_files = ?d1, output_files = out\<rparr> = w1\<lparr>output_files := out\<rparr>" for out
    by (cases w1) simp
  show ?thesis
    unfolding analyze_result[OF t1 t2 t3] del2 ch2
    by (simp add: emptyChangeset_def same_out same_world)
qed

text \<open>
  The hypotheses hold for the cache a run over \<open>Navigation.tsx\<close> and \<open>Button.tsx\<close> left,
  with \<open>Button.tsx\<close> unchanged and \<open>Navigation.tsx\<close> gone: the first run reports the
  deletion, the second run reports nothing.
\<close>

lemma second_run_idempotent_example:
  "changesetOf
     (analyze (exampleEnv [(buttonPath, ''v2'')] [])
        (worldOf (analyze (exampleEnv [(buttonPath, ''v2'')] [])
                    \<lparr>cache_files = twoFileCache, output_files = noOutputs\<rparr> [buttonPath]))
        [buttonPath])
   = Some emptyChangeset"
proof -
  let ?e = "exampleEnv [(buttonPath, ''v2'')] []"
  let ?w = "\<lparr>cache_files = twoFileCache, output_files = noOutputs\<rparr>"
  have i: "inj (env_md5 ?e)"
    by (simp add: exampleEnv_def plainDigest_def inj_on_def)
  have k: "keyedCache (env_md5 ?e) (cache_files ?w)"
    by code_simp
  have d: "distinct (map (relative (env_projectRoot ?e) (env_projectRoot ?e)) [buttonPath])"
    by simp
  have "changesetOf (analyze ?e ?w [buttonPath]) \<noteq> None"
    by code_simp
  then obtain cs1 w1 where r: "analyze ?e ?w [buttonPath] = Inr (cs1, w1)"
    by (cases "analyze ?e ?w [buttonPath]") (auto simp add: changesetOf_def)
  then have w1: "worldOf (analyze ?e ?w [buttonPath]) = w1"
    by (simp add: worldOf_def)
  from second_run_idempotent[OF i k d r] show ?thesis
    unfolding w1 by (simp add: changesetOf_def)
qed

end
